theory Spec2Isabelle
  imports Complex_Main "HOL-Library.Sublist"
begin

section \<open>Borewell contour pipelines: data model\<close>

text \<open>
  The two scripts \<^verbatim>\<open>generate_contour.py\<close> (groundwater elevation) and
  \<^verbatim>\<open>generate_nitrate_contour.py\<close> (nitrate) are embedded here in two parts: the
  filter on the sampling round, applied to the table that was read and whose header was
  stripped, and the pipeline from the validated samples on, up to \<^verbatim>\<open>ax.contourf\<close>.
  The conversion of the three columns to numbers lies between the two and is not part of
  the model.

  A Python/NumPy float is a double. The doubles are the reals \<open>k * 2 ^ j\<close> with
  \<open>k\<close> an integer below \<open>2 ^ 53\<close> in absolute value, and every arithmetic operation
  returns the double nearest to the exact result, ties going to the even \<open>k\<close>. The
  range of the exponent \<open>j\<close> is taken as unbounded: overflow to infinity and the loss
  of precision below \<open>2 ^ -1022\<close> are not modelled. A float is \<open>Some x\<close> for the
  value \<open>x\<close> and \<open>None\<close> for NaN, which propagates through every operation and
  makes every comparison false. Every division of the two scripts has a divisor that is
  never zero (an interval of the table, \<open>magnitude + 1e-10\<close>, 99, 2).

  The external libraries are parameters of the model: the coordinate transformer of
  pyproj, the scattered-data interpolator \<^verbatim>\<open>scipy.interpolate.griddata\<close>, and the
  conversion of numbers to text of pandas.
\<close>

subsection \<open>Rounding to the nearest double\<close>

text \<open>The exponent of the binade of \<open>x\<close>: \<open>2 ^ e \<le> |x| < 2 ^ (e + 1)\<close>.\<close>

definition exponent :: "real \<Rightarrow> int" where
  "exponent x = \<lfloor>log 2 \<bar>x\<bar>\<rfloor>"

text \<open>The integer nearest to \<open>y\<close>, the even one of the two when \<open>y\<close> lies halfway.\<close>

definition round_even :: "real \<Rightarrow> int" where
  "round_even y =
     (let n = \<lfloor>y\<rfloor>; d = y - of_int n
      in if d < 1 / 2 then n else if 1 / 2 < d then n + 1 else if even n then n else n + 1)"

text \<open>The double nearest to \<open>x\<close>: \<open>x\<close> rounded to 53 significant bits.\<close>

definition fl :: "real \<Rightarrow> real" where
  "fl x = (if x = 0 then 0
           else of_int (round_even (x * 2 powi (52 - exponent x))) * 2 powi (exponent x - 52))"

definition is_double :: "real \<Rightarrow> bool" where
  "is_double x \<longleftrightarrow> (\<exists>k j. \<bar>k\<bar> < 2 ^ 53 \<and> x = of_int k * 2 powi j)"

text \<open>The value of a decimal literal of the source, such as \<^verbatim>\<open>0.01\<close>.\<close>

definition literal :: "real \<Rightarrow> real" where
  "literal q = fl q"

subsection \<open>Floats and errors\<close>

type_synonym float = "real option"

text \<open>
  What \<^verbatim>\<open>griddata\<close> can raise, and what a run can end with. Of the
  latter, \<open>InsufficientDataError\<close> is the error named by the specification; it is
  part of the type so that statements can mention it.
\<close>

datatype scipy_error = QhullError | ScipyValueError

datatype error =
    ValueError
  | AttributeError
  | ScipyError scipy_error
  | InsufficientDataError

definition lift2 :: "(real \<Rightarrow> real \<Rightarrow> real) \<Rightarrow> float \<Rightarrow> float \<Rightarrow> float" where
  "lift2 f a b = (case a of None \<Rightarrow> None | Some x \<Rightarrow> (case b of None \<Rightarrow> None | Some y \<Rightarrow> Some (f x y)))"

definition fadd :: "float \<Rightarrow> float \<Rightarrow> float" where
  "fadd = lift2 (\<lambda>x y. fl (x + y))"

definition fsub :: "float \<Rightarrow> float \<Rightarrow> float" where
  "fsub = lift2 (\<lambda>x y. fl (x - y))"

definition fmul :: "float \<Rightarrow> float \<Rightarrow> float" where
  "fmul = lift2 (\<lambda>x y. fl (x * y))"

definition fdiv :: "float \<Rightarrow> float \<Rightarrow> float" where
  "fdiv = lift2 (\<lambda>x y. fl (x / y))"

definition fneg :: "float \<Rightarrow> float" where
  "fneg a = map_option uminus a"

text \<open>\<^verbatim>\<open>np.sqrt\<close>: NaN on a negative number.\<close>

definition fsqrt :: "float \<Rightarrow> float" where
  "fsqrt a = (case a of None \<Rightarrow> None | Some x \<Rightarrow> if x < 0 then None else Some (fl (sqrt x)))"

definition np_floor :: "float \<Rightarrow> float" where
  "np_floor a = map_option (\<lambda>x. real_of_int \<lfloor>x\<rfloor>) a"

definition np_ceil :: "float \<Rightarrow> float" where
  "np_ceil a = map_option (\<lambda>x. real_of_int \<lceil>x\<rceil>) a"

text \<open>\<open>a > c\<close> on floats: false when \<open>a\<close> is NaN.\<close>

definition fgt :: "float \<Rightarrow> real \<Rightarrow> bool" where
  "fgt a c = (case a of None \<Rightarrow> False | Some x \<Rightarrow> c < x)"

section \<open>Contour level selection\<close>

text \<open>
  \<^verbatim>\<open>interval = 1.0 if z_range > 10 else 0.5 if z_range > 5 else 0.2 if z_range > 2
             else 0.1 if z_range > 1 else 0.05 if z_range > 0.5 else 0.01\<close>
  (generate_contour.py, line 84): the tier of the table, by the number its literal
  writes.
\<close>

definition elevation_interval :: "float \<Rightarrow> real" where
  "elevation_interval z_range =
     (if fgt z_range 10 then 1.0
      else if fgt z_range 5 then 0.5
      else if fgt z_range 2 then 0.2
      else if fgt z_range 1 then 0.1
      else if fgt z_range 0.5 then 0.05
      else 0.01)"

text \<open>
  \<^verbatim>\<open>n_interval = 1.0 if n_range > 10 else 0.5 if n_range > 5 else 0.2 if n_range > 2 else 0.1\<close>
  (generate_nitrate_contour.py, line 75).
\<close>

definition nitrate_interval :: "float \<Rightarrow> real" where
  "nitrate_interval n_range =
     (if fgt n_range 10 then 1.0
      else if fgt n_range 5 then 0.5
      else if fgt n_range 2 then 0.2
      else 0.1)"

text \<open>
  The values of \<^verbatim>\<open>np.arange\<close>: NumPy stores \<open>start\<close> and \<open>start + step\<close>, takes
  their difference as \<open>delta\<close>, and fills the rest with \<open>start + k * delta\<close>.
\<close>

definition arange_values :: "real \<Rightarrow> real \<Rightarrow> nat \<Rightarrow> real list" where
  "arange_values start step n =
     (let next = fl (start + step); delta = fl (next - start)
      in map (\<lambda>k. if k = 0 then start else if k = 1 then next
                  else fl (start + fl (real k * delta)))
             [0..<n])"

text \<open>
  \<^verbatim>\<open>np.arange(start, stop, step)\<close>: the half-open range of
  \<open>ceil((stop - start) / step)\<close> values, the quotient computed in doubles; no value
  when that count is not positive. NumPy raises when the length cannot be computed (a
  NaN bound, a zero step).
\<close>

definition np_arange :: "float \<Rightarrow> float \<Rightarrow> real \<Rightarrow> error + real list" where
  "np_arange start stop step =
     (case start of None \<Rightarrow> Inl ValueError
      | Some a \<Rightarrow>
          (case stop of None \<Rightarrow> Inl ValueError
           | Some b \<Rightarrow>
               if step = 0 then Inl ValueError
               else Inr (arange_values a step (nat \<lceil>fl (fl (b - a) / step)\<rceil>))))"

text \<open>
  \<^verbatim>\<open>np.arange(np.floor(z_min / interval) * interval,
            np.ceil(z_max / interval) * interval + interval,
            interval)\<close>
  (generate_contour.py, lines 86-90; generate_nitrate_contour.py, lines 77-81).
\<close>

definition level_range :: "float \<Rightarrow> float \<Rightarrow> real \<Rightarrow> error + real list" where
  "level_range v_min v_max interval =
     np_arange
       (fmul (np_floor (fdiv v_min (Some interval))) (Some interval))
       (fadd (fmul (np_ceil (fdiv v_max (Some interval))) (Some interval)) (Some interval))
       interval"

text \<open>Lines 83-90 of generate_contour.py: the levels from \<open>z_min\<close> and \<open>z_max\<close>. The
  interval the script works with is the double that the literal of the tier denotes.\<close>

definition elevation_levels :: "float \<Rightarrow> float \<Rightarrow> error + real list" where
  "elevation_levels z_min z_max =
     (let z_range = fsub z_max z_min;
          interval = literal (elevation_interval z_range)
      in level_range z_min z_max interval)"

text \<open>Lines 74-81 of generate_nitrate_contour.py: the levels from \<open>n_min\<close> and \<open>n_max\<close>.\<close>

definition nitrate_levels :: "float \<Rightarrow> float \<Rightarrow> error + real list" where
  "nitrate_levels n_min n_max =
     (let n_range = fsub n_max n_min;
          n_interval = literal (nitrate_interval n_range)
      in level_range n_min n_max n_interval)"

text \<open>
  \<^verbatim>\<open>ax.contourf(..., levels=levels, ...)\<close>: Matplotlib raises \<^verbatim>\<open>ValueError\<close> when
  filled contours get fewer than two levels, and when the levels are not increasing.
\<close>

definition contourf_levels :: "real list \<Rightarrow> error + unit" where
  "contourf_levels levels =
     (if length levels < 2 then Inl ValueError
      else if \<not> sorted_wrt (<) levels then Inl ValueError
      else Inr ())"

section \<open>Arrays, grid and bounds\<close>

type_synonym array2 = "float list list"

text \<open>\<^verbatim>\<open>Series.min()\<close> and \<^verbatim>\<open>Series.max()\<close> of pandas on a column without
  missing values: NaN on the empty column.\<close>

definition series_min :: "real list \<Rightarrow> float" where
  "series_min xs = (case xs of [] \<Rightarrow> None | x # r \<Rightarrow> Some (fold min r x))"

definition series_max :: "real list \<Rightarrow> float" where
  "series_max xs = (case xs of [] \<Rightarrow> None | x # r \<Rightarrow> Some (fold max r x))"

text \<open>\<^verbatim>\<open>np.minimum\<close>, \<^verbatim>\<open>np.maximum\<close>: NaN when either argument is NaN.\<close>

definition np_minimum :: "float \<Rightarrow> float \<Rightarrow> float" where
  "np_minimum = lift2 min"

definition np_maximum :: "float \<Rightarrow> float \<Rightarrow> float" where
  "np_maximum = lift2 max"

text \<open>\<^verbatim>\<open>np.fmin\<close>, \<^verbatim>\<open>np.fmax\<close>: a NaN argument is ignored.\<close>

definition np_fmin :: "float \<Rightarrow> float \<Rightarrow> float" where
  "np_fmin a b = (case a of None \<Rightarrow> b | Some x \<Rightarrow> (case b of None \<Rightarrow> a | Some y \<Rightarrow> Some (min x y)))"

definition np_fmax :: "float \<Rightarrow> float \<Rightarrow> float" where
  "np_fmax a b = (case a of None \<Rightarrow> b | Some x \<Rightarrow> (case b of None \<Rightarrow> a | Some y \<Rightarrow> Some (max x y)))"

text \<open>A reduction over all cells of an array; NumPy raises on an array without cells.\<close>

definition reduce_all :: "(float \<Rightarrow> float \<Rightarrow> float) \<Rightarrow> array2 \<Rightarrow> error + float" where
  "reduce_all f a = (case concat a of [] \<Rightarrow> Inl ValueError | x # r \<Rightarrow> Inr (fold f r x))"

text \<open>\<^verbatim>\<open>a.min()\<close>, \<^verbatim>\<open>a.max()\<close>: NaN as soon as one cell is NaN.\<close>

definition np_amin :: "array2 \<Rightarrow> error + float" where
  "np_amin = reduce_all np_minimum"

definition np_amax :: "array2 \<Rightarrow> error + float" where
  "np_amax = reduce_all np_maximum"

text \<open>\<^verbatim>\<open>np.nanmin(a)\<close>, \<^verbatim>\<open>np.nanmax(a)\<close>: over the cells that are not NaN; NaN
  (with a warning) when every cell is NaN.\<close>

definition np_nanmin :: "array2 \<Rightarrow> error + float" where
  "np_nanmin = reduce_all np_fmin"

definition np_nanmax :: "array2 \<Rightarrow> error + float" where
  "np_nanmax = reduce_all np_fmax"

text \<open>
  One axis of \<^verbatim>\<open>np.mgrid[start:stop:100j]\<close>: NumPy takes
  \<open>step = (stop - start) / (100 - 1)\<close> and the values \<open>i * step + start\<close> for
  \<open>i = 0, ..., 99\<close>.
\<close>

definition resolution :: nat where
  "resolution = 100"

definition mgrid_axis :: "float \<Rightarrow> float \<Rightarrow> float list" where
  "mgrid_axis start stop =
     (let step = fdiv (fsub stop start) (Some (real (resolution - 1)))
      in map (\<lambda>i. fadd (fmul (Some (real i)) step) start) [0..<resolution])"

text \<open>
  \<^verbatim>\<open>grid_x, grid_y = np.mgrid[e_min:e_max:100j, n_min:n_max:100j]\<close>: \<open>grid_x\<close>
  varies along the first index, \<open>grid_y\<close> along the second.
\<close>

definition np_mgrid :: "float \<Rightarrow> float \<Rightarrow> float \<Rightarrow> float \<Rightarrow> array2 \<times> array2" where
  "np_mgrid e_min e_max n_min n_max =
     (map (\<lambda>x. replicate resolution x) (mgrid_axis e_min e_max),
      replicate resolution (mgrid_axis n_min n_max))"

text \<open>
  \<^verbatim>\<open>Transformer.from_crs("EPSG:32755", "EPSG:4326", always_xy=True)\<close>. The
  transformation itself belongs to pyproj and is a parameter: from the transformer and
  the two coordinates of a point to the two coordinates of its image.
\<close>

record transformer =
  crs_from :: string
  crs_to :: string
  always_xy :: bool

type_synonym pyproj = "transformer \<Rightarrow> float \<Rightarrow> float \<Rightarrow> float \<times> float"

definition from_crs :: transformer where
  "from_crs = \<lparr>crs_from = ''EPSG:32755'', crs_to = ''EPSG:4326'', always_xy = True\<rparr>"

text \<open>A Python dict keeps the order in which its keys were inserted, and
  \<^verbatim>\<open>json.dump\<close> writes them in that order: an association list.\<close>

type_synonym bounds_dict = "(string \<times> float) list"

text \<open>
  Lines 54-65 of generate_contour.py (49-60 of generate_nitrate_contour.py):
  \<^verbatim>\<open>min_easting, max_easting = grid_x.min(), grid_x.max()
  min_northing, max_northing = grid_y.min(), grid_y.max()
  min_lon, min_lat = transformer.transform(min_easting, min_northing)
  max_lon, max_lat = transformer.transform(max_easting, max_northing)
  bounds_dict = {"min_lat": min_lat, "min_lon": min_lon, "max_lat": max_lat, "max_lon": max_lon}\<close>
\<close>

definition make_bounds :: "float \<times> float \<Rightarrow> float \<times> float \<Rightarrow> bounds_dict" where
  "make_bounds lo hi =
     (case lo of (min_lon, min_lat) \<Rightarrow>
        (case hi of (max_lon, max_lat) \<Rightarrow>
           [(''min_lat'', min_lat), (''min_lon'', min_lon),
            (''max_lat'', max_lat), (''max_lon'', max_lon)]))"

definition reproject_corners :: "pyproj \<Rightarrow> array2 \<Rightarrow> array2 \<Rightarrow> error + bounds_dict" where
  "reproject_corners transform grid_x grid_y =
     (case np_amin grid_x of Inl e \<Rightarrow> Inl e | Inr min_easting \<Rightarrow>
      (case np_amax grid_x of Inl e \<Rightarrow> Inl e | Inr max_easting \<Rightarrow>
       (case np_amin grid_y of Inl e \<Rightarrow> Inl e | Inr min_northing \<Rightarrow>
        (case np_amax grid_y of Inl e \<Rightarrow> Inl e | Inr max_northing \<Rightarrow>
           Inr (make_bounds (transform from_crs min_easting min_northing)
                            (transform from_crs max_easting max_northing))))))"

section \<open>Gradient field\<close>

text \<open>
  \<^verbatim>\<open>np.gradient\<close> along one axis with unit spacing: the one-sided difference at
  the two ends and the central difference \<open>(f[k+1] - f[k-1]) / 2\<close> inside.
\<close>

definition gradient_1d :: "float list \<Rightarrow> float list" where
  "gradient_1d f =
     (let n = length f
      in map (\<lambda>k. if k = 0 then fsub (f ! 1) (f ! 0)
                  else if k = n - 1 then fsub (f ! (n - 1)) (f ! (n - 2))
                  else fdiv (fsub (f ! (k + 1)) (f ! (k - 1))) (Some 2))
             [0..<n])"

definition ncols :: "array2 \<Rightarrow> nat" where
  "ncols z = (case z of [] \<Rightarrow> 0 | row # _ \<Rightarrow> length row)"

definition column :: "array2 \<Rightarrow> nat \<Rightarrow> float list" where
  "column z j = map (\<lambda>row. row ! j) z"

text \<open>
  \<^verbatim>\<open>dz_dx, dz_dy = np.gradient(grid_z)\<close>: the differences along the first index
  and along the second. NumPy raises when an axis has fewer than two cells.
\<close>

definition np_gradient :: "array2 \<Rightarrow> error + array2 \<times> array2" where
  "np_gradient z =
     (if length z < 2 \<or> ncols z < 2 then Inl ValueError
      else Inr (map (\<lambda>i. map (\<lambda>j. gradient_1d (column z j) ! i) [0..<ncols z]) [0..<length z],
                map gradient_1d z))"

definition elementwise :: "(float \<Rightarrow> float \<Rightarrow> float) \<Rightarrow> array2 \<Rightarrow> array2 \<Rightarrow> array2" where
  "elementwise f a b = map2 (map2 f) a b"

text \<open>\<^verbatim>\<open>np.sqrt(dz_dx**2 + dz_dy**2)\<close> at one cell.\<close>

definition magnitude_of :: "float \<Rightarrow> float \<Rightarrow> float" where
  "magnitude_of dx dy = fsqrt (fadd (fmul dx dx) (fmul dy dy))"

definition epsilon :: real where
  "epsilon = literal (1 / 10 ^ 10)"

text \<open>\<^verbatim>\<open>-d / (magnitude + 1e-10)\<close> at one cell.\<close>

definition unit_component :: "float \<Rightarrow> float \<Rightarrow> float" where
  "unit_component d magnitude = fdiv (fneg d) (fadd magnitude (Some epsilon))"

text \<open>Lines 77-80 of generate_contour.py.\<close>

definition flow_field :: "array2 \<Rightarrow> error + array2 \<times> array2" where
  "flow_field grid_z =
     (case np_gradient grid_z of Inl e \<Rightarrow> Inl e
      | Inr (dz_dx, dz_dy) \<Rightarrow>
          (let magnitude = elementwise magnitude_of dz_dx dz_dy;
               u = elementwise unit_component dz_dx magnitude;
               v = elementwise unit_component dz_dy magnitude
           in Inr (u, v)))"

section \<open>The filter on the sampling round\<close>

text \<open>
  A cell of the sheet read by \<^verbatim>\<open>pd.read_excel\<close>: a text, a number, or nothing
  (which pandas represents as NaN). A table is its header and its rows, every row with
  one cell for each column. The tables of this section are those of the script after
  line 33 has stripped the white space around the names of the header.
\<close>

datatype cell = Str string | Num real | Empty

record dataframe =
  columns :: "string list"
  rows :: "cell list list"

text \<open>The conversion of a number to text that pandas performs in \<^verbatim>\<open>astype(str)\<close> is
  a parameter.\<close>

record pandas =
  str_of_num :: "real \<Rightarrow> string"

fun index_of :: "string list \<Rightarrow> string \<Rightarrow> nat option" where
  "index_of [] name = None"
| "index_of (c # cs) name = (if c = name then Some 0 else map_option Suc (index_of cs name))"

text \<open>The cell of a row in the column of a given name, for a name that the header holds
  once.\<close>

definition cell_at :: "dataframe \<Rightarrow> string \<Rightarrow> cell list \<Rightarrow> cell" where
  "cell_at df name row =
     (case index_of (columns df) name of
        None \<Rightarrow> Empty
      | Some i \<Rightarrow> if i < length row then row ! i else Empty)"

text \<open>\<^verbatim>\<open>s.str.contains(pat)\<close> on one text, for a pattern without special
  characters: \<open>pat\<close> occurs in \<open>s\<close>.\<close>

fun contains :: "string \<Rightarrow> string \<Rightarrow> bool" where
  "contains [] pat = (pat = [])"
| "contains (c # s) pat = (prefix pat (c # s) \<or> contains s pat)"

text \<open>\<^verbatim>\<open>astype(str)\<close> on one cell.\<close>

definition astype_str :: "pandas \<Rightarrow> cell \<Rightarrow> string" where
  "astype_str pd c = (case c of Str s \<Rightarrow> s | Num r \<Rightarrow> str_of_num pd r | Empty \<Rightarrow> ''nan'')"

text \<open>\<^verbatim>\<open>.str.contains(pat, na=False)\<close> on one cell: a cell that is not a text gives
  NaN, which \<^verbatim>\<open>na=False\<close> turns into \<open>False\<close>.\<close>

definition str_contains :: "cell \<Rightarrow> string \<Rightarrow> bool" where
  "str_contains c pat = (case c of Str s \<Rightarrow> contains s pat | Num r \<Rightarrow> False | Empty \<Rightarrow> False)"

text \<open>
  Lines 35-36 of generate_contour.py:
  \<^verbatim>\<open>if 'Name' in df.columns and df['Name'].astype(str).str.contains('TOC1', na=False).any():
      df = df[df['Name'].str.contains('TOC1', na=False)].copy()\<close>
  When the header holds \<open>Name\<close> more than once, \<^verbatim>\<open>df['Name']\<close> is a table and not a
  column, and its \<^verbatim>\<open>.str\<close> raises \<^verbatim>\<open>AttributeError\<close>.
\<close>

definition toc1_filter :: "pandas \<Rightarrow> dataframe \<Rightarrow> error + dataframe" where
  "toc1_filter pd df =
     (if ''Name'' \<in> set (columns df)
      then (if 1 < count_list (columns df) ''Name'' then Inl AttributeError
            else if list_ex (\<lambda>row. contains (astype_str pd (cell_at df ''Name'' row)) ''TOC1'')
                      (rows df)
            then Inr (df\<lparr>rows := filter (\<lambda>row. str_contains (cell_at df ''Name'' row) ''TOC1'')
                                   (rows df)\<rparr>)
            else Inr df)
      else Inr df)"

section \<open>The two pipelines\<close>

text \<open>A row of the table after the three columns were converted to numbers and the rows
  with a missing number dropped.\<close>

record sample =
  easting :: real
  northing :: real
  measurement :: real

text \<open>
  \<^verbatim>\<open>griddata(points=(eastings, northings), values=..., xi=(grid_x, grid_y), method='cubic')\<close>
  belongs to SciPy and is a parameter: it returns an array over the grid, NaN where it
  has no value, or raises.
\<close>

type_synonym griddata =
  "real list \<times> real list \<Rightarrow> real list \<Rightarrow> array2 \<times> array2 \<Rightarrow> string \<Rightarrow> scipy_error + array2"

text \<open>What a run hands to the plotting calls that follow \<^verbatim>\<open>ax.contourf\<close>.\<close>

record elevation_plot =
  grid_x :: array2
  grid_y :: array2
  grid_z :: array2
  flow_u :: array2
  flow_v :: array2
  contour_levels :: "real list"

record nitrate_plot =
  ngrid_x :: array2
  ngrid_y :: array2
  grid_nitrate :: array2
  nitrate_contour_levels :: "real list"

text \<open>Lines 48-51 of generate_contour.py (43-46 of generate_nitrate_contour.py).\<close>

definition sample_grid :: "sample list \<Rightarrow> array2 \<times> array2" where
  "sample_grid df =
     np_mgrid (series_min (map easting df)) (series_max (map easting df))
              (series_min (map northing df)) (series_max (map northing df))"

text \<open>Lines 77-94 of generate_contour.py: what the script does with the interpolated
  grid, up to \<^verbatim>\<open>ax.contourf\<close>.\<close>

definition elevation_finish ::
  "sample list \<Rightarrow> array2 \<Rightarrow> array2 \<Rightarrow> array2 \<Rightarrow> error + elevation_plot" where
  "elevation_finish df gx gy gz =
     (case flow_field gz of
        Inl e \<Rightarrow> Inl e
      | Inr (u, v) \<Rightarrow>
          (let z_min = series_min (map measurement df);
               z_max = series_max (map measurement df)
           in case elevation_levels z_min z_max of
                Inl e \<Rightarrow> Inl e
              | Inr levels \<Rightarrow>
                  (case contourf_levels levels of
                     Inl e \<Rightarrow> Inl e
                   | Inr _ \<Rightarrow> Inr \<lparr>grid_x = gx, grid_y = gy, grid_z = gz,
                                    flow_u = u, flow_v = v,
                                    contour_levels = levels\<rparr>)))"

text \<open>
  Lines 47-94 of generate_contour.py, after the table is loaded. The result is the list
  of bounds files written, with their names, and what the run ends with: an error, or
  the data it plots. The bounds file is written before the interpolation starts.
\<close>

definition elevation_run ::
  "pyproj \<Rightarrow> griddata \<Rightarrow> sample list \<Rightarrow> (string \<times> bounds_dict) list \<times> (error + elevation_plot)" where
  "elevation_run transform interpolate df =
     (case sample_grid df of (gx, gy) \<Rightarrow>
        (case reproject_corners transform gx gy of
           Inl e \<Rightarrow> ([], Inl e)
         | Inr bounds \<Rightarrow>
             (let files = [(''image_bounds.json'', bounds)]
              in case interpolate (map easting df, map northing df) (map measurement df)
                        (gx, gy) ''cubic'' of
                   Inl e \<Rightarrow> (files, Inl (ScipyError e))
                 | Inr gz \<Rightarrow> (files, elevation_finish df gx gy gz))))"

text \<open>Lines 73-89 of generate_nitrate_contour.py: what the script does with the
  interpolated grid, up to \<^verbatim>\<open>ax.contourf\<close>.\<close>

definition nitrate_finish :: "array2 \<Rightarrow> array2 \<Rightarrow> array2 \<Rightarrow> error + nitrate_plot" where
  "nitrate_finish gx gy gn =
     (case np_nanmin gn of
        Inl e \<Rightarrow> Inl e
      | Inr n_min \<Rightarrow>
          (case np_nanmax gn of
             Inl e \<Rightarrow> Inl e
           | Inr n_max \<Rightarrow>
               (case nitrate_levels n_min n_max of
                  Inl e \<Rightarrow> Inl e
                | Inr levels \<Rightarrow>
                    (case contourf_levels levels of
                       Inl e \<Rightarrow> Inl e
                     | Inr _ \<Rightarrow> Inr \<lparr>ngrid_x = gx, ngrid_y = gy, grid_nitrate = gn,
                                      nitrate_contour_levels = levels\<rparr>))))"

text \<open>Lines 42-89 of generate_nitrate_contour.py, after the table is loaded.\<close>

definition nitrate_run ::
  "pyproj \<Rightarrow> griddata \<Rightarrow> sample list \<Rightarrow> (string \<times> bounds_dict) list \<times> (error + nitrate_plot)" where
  "nitrate_run transform interpolate df =
     (case sample_grid df of (gx, gy) \<Rightarrow>
        (case reproject_corners transform gx gy of
           Inl e \<Rightarrow> ([], Inl e)
         | Inr bounds \<Rightarrow>
             (let files = [(''nitrate_bounds.json'', bounds)]
              in case interpolate (map easting df, map northing df) (map measurement df)
                        (gx, gy) ''cubic'' of
                   Inl e \<Rightarrow> (files, Inl (ScipyError e))
                 | Inr gn \<Rightarrow> (files, nitrate_finish gx gy gn))))"

text \<open>The samples of a run are doubles.\<close>

definition double_samples :: "sample list \<Rightarrow> bool" where
  "double_samples df \<longleftrightarrow>
     list_all (\<lambda>s. is_double (easting s) \<and> is_double (northing s) \<and> is_double (measurement s)) df"

section \<open>The specification's level tables\<close>

text \<open>
  The interval table of the specification, section 4.5, in its own words: each row gives
  a bound and the interval chosen when the range is greater than the bound, the first
  row that applies wins, and the last row is the interval chosen otherwise.
\<close>

definition spec_elevation_table :: "(real \<times> real) list" where
  "spec_elevation_table = [(10, 1.0), (5, 0.5), (2, 0.2), (1, 0.1), (0.5, 0.05)]"

definition spec_nitrate_table :: "(real \<times> real) list" where
  "spec_nitrate_table = [(10, 1.0), (5, 0.5), (2, 0.2)]"

definition spec_lookup :: "(real \<times> real) list \<Rightarrow> real \<Rightarrow> real \<Rightarrow> real" where
  "spec_lookup table otherwise r =
     (case find (\<lambda>entry. fst entry < r) table of
        None \<Rightarrow> otherwise
      | Some entry \<Rightarrow> snd entry)"


section \<open>Order of the bounds\<close>

text \<open>\<open>a \<le> b\<close> on floats: false when either is NaN.\<close>

definition fle :: "float \<Rightarrow> float \<Rightarrow> bool" where
  "fle a b = (case a of None \<Rightarrow> False | Some x \<Rightarrow> (case b of None \<Rightarrow> False | Some y \<Rightarrow> x \<le> y))"

text \<open>A transformation is monotone in both axes over a box of projected coordinates when
  a point of the box that lies further east and further north has the greater longitude
  and the greater latitude.\<close>

definition monotone_on_box :: "pyproj \<Rightarrow> real \<Rightarrow> real \<Rightarrow> real \<Rightarrow> real \<Rightarrow> bool" where
  "monotone_on_box transform e_min e_max n_min n_max \<longleftrightarrow>
     (\<forall>x x' y y'. e_min \<le> x \<and> x \<le> x' \<and> x' \<le> e_max \<and> n_min \<le> y \<and> y \<le> y' \<and> y' \<le> n_max \<longrightarrow>
        fle (fst (transform from_crs (Some x) (Some y))) (fst (transform from_crs (Some x') (Some y')))
        \<and> fle (snd (transform from_crs (Some x) (Some y))) (snd (transform from_crs (Some x') (Some y'))))"

section \<open>Grids inside a convex hull\<close>


section \<open>Example inputs\<close>

text \<open>Four samples with the same measurement.\<close>

definition constant_samples :: "sample list" where
  "constant_samples =
     [\<lparr>easting = 0, northing = 0, measurement = 5\<rparr>,
      \<lparr>easting = 10, northing = 0, measurement = 5\<rparr>,
      \<lparr>easting = 0, northing = 10, measurement = 5\<rparr>,
      \<lparr>easting = 10, northing = 10, measurement = 5\<rparr>]"

text \<open>The five samples of the specification's example scenario.\<close>

definition example_samples :: "sample list" where
  "example_samples =
     [\<lparr>easting = 0, northing = 0, measurement = 10\<rparr>,
      \<lparr>easting = 10, northing = 0, measurement = 12\<rparr>,
      \<lparr>easting = 0, northing = 10, measurement = 8\<rparr>,
      \<lparr>easting = 10, northing = 10, measurement = 14\<rparr>,
      \<lparr>easting = 5, northing = 5, measurement = 11\<rparr>]"

text \<open>Five samples on the box from 0 to 13 in easting and from 0 to 27 in northing.\<close>

definition offset_samples :: "sample list" where
  "offset_samples =
     [\<lparr>easting = 0, northing = 0, measurement = 10\<rparr>,
      \<lparr>easting = 13, northing = 0, measurement = 12\<rparr>,
      \<lparr>easting = 0, northing = 27, measurement = 8\<rparr>,
      \<lparr>easting = 13, northing = 27, measurement = 14\<rparr>,
      \<lparr>easting = 5, northing = 5, measurement = 11\<rparr>]"

text \<open>The transformation that leaves both coordinates as they are.\<close>

definition identity_transform :: pyproj where
  "identity_transform t x y = (x, y)"

text \<open>Three more transformations: one that reverses both axes, one that turns and
  stretches the plane, and one that shears it.\<close>

definition reversing_transform :: pyproj where
  "reversing_transform t x y = (fneg x, fneg y)"

definition turning_transform :: pyproj where
  "turning_transform t x y = (fsub x y, fadd x y)"

definition shearing_transform :: pyproj where
  "shearing_transform t x y = (fsub x (fdiv y (Some 2)), y)"

text \<open>A stand-in for an interpolator that raises.\<close>

definition raising_griddata :: griddata where
  "raising_griddata points values xi method = Inl QhullError"





text \<open>A stand-in for the interpolator whose grid goes beyond the range of the samples: a
  100 by 100 grid with the values from 6.25 to 24.75 on and above the line
  \<open>i + j = 50\<close>.\<close>

definition overshooting_grid :: array2 where
  "overshooting_grid =
     map (\<lambda>i. map (\<lambda>j. if i + j < 50 then None else Some (real (i + j) / 8)) [0..<100])
       [0..<100]"

definition overshooting_griddata :: griddata where
  "overshooting_griddata points values xi method = Inr overshooting_grid"

text \<open>Three samples that are not colinear, with measurements on the plane
  \<open>10 + x + 2 * y\<close>, and a stand-in for the interpolator on them: the values of that
  plane inside the triangle of the samples and NaN outside. Two samples, on which the
  triangulation of the interpolator raises.\<close>

definition three_samples :: "sample list" where
  "three_samples =
     [\<lparr>easting = 0, northing = 0, measurement = 10\<rparr>,
      \<lparr>easting = 10, northing = 0, measurement = 20\<rparr>,
      \<lparr>easting = 0, northing = 10, measurement = 30\<rparr>]"

definition plane_griddata :: griddata where
  "plane_griddata points values xi method =
     Inr (elementwise
            (\<lambda>x y. if fle (fadd x y) (Some 10)
                    then fadd (Some 10) (fadd x (fmul (Some 2) y)) else None)
            (fst xi) (snd xi))"

definition two_samples :: "sample list" where
  "two_samples =
     [\<lparr>easting = 0, northing = 0, measurement = 10\<rparr>,
      \<lparr>easting = 10, northing = 10, measurement = 30\<rparr>]"

section \<open>Properties of rounding\<close>

lemma two_powi_pos: "0 < (2::real) powi e"
  by (simp add: zero_less_power_int)

lemma two_powi_add: "(2::real) powi (a + b) = 2 powi a * 2 powi b"
  by (simp add: power_int_add)

lemma two_powi_le: "a \<le> b \<Longrightarrow> (2::real) powi a \<le> 2 powi b"
  by (rule power_int_increasing) simp_all

lemma two_powi_less: "a < b \<Longrightarrow> (2::real) powi a < 2 powi b"
  by (rule power_int_strict_increasing) simp_all

lemma two_powi_less_cancel:
  assumes "(2::real) powi a < 2 powi b"
  shows "a < b"
proof (rule ccontr)
  assume "\<not> a < b"
  then have "b \<le> a" by simp
  then have "(2::real) powi b \<le> 2 powi a" by (rule two_powi_le)
  then show False using assms by simp
qed

lemma exponent_bounds:
  assumes "x \<noteq> 0"
  shows "2 powi (exponent x) \<le> \<bar>x\<bar>" "\<bar>x\<bar> < 2 powi (exponent x + 1)"
proof -
  have pos: "0 < \<bar>x\<bar>" using assms by simp
  have p1: "2 powr real_of_int (exponent x) = (2::real) powi (exponent x)"
    by (rule powr_real_of_int') simp_all
  have p2: "2 powr real_of_int (exponent x + 1) = (2::real) powi (exponent x + 1)"
    by (rule powr_real_of_int') simp_all
  have "\<lfloor>log 2 \<bar>x\<bar>\<rfloor> = exponent x" by (simp add: exponent_def)
  then have "2 powr real_of_int (exponent x) \<le> \<bar>x\<bar> \<and> \<bar>x\<bar> < 2 powr real_of_int (exponent x + 1)"
    using floor_log_eq_powr_iff [OF pos, of 2 "exponent x"] by (simp del: of_int_add)
  then show "2 powi (exponent x) \<le> \<bar>x\<bar>" "\<bar>x\<bar> < 2 powi (exponent x + 1)"
    unfolding p1 p2 by simp_all
qed

lemma exponent_eqI:
  assumes "2 powi e \<le> \<bar>x\<bar>" "\<bar>x\<bar> < 2 powi (e + 1)"
  shows "exponent x = e"
proof -
  have pos: "0 < \<bar>x\<bar>" using assms(1) two_powi_pos [of e] by linarith
  have p1: "2 powr real_of_int e = (2::real) powi e"
    by (rule powr_real_of_int') simp_all
  have p2: "2 powr real_of_int (e + 1) = (2::real) powi (e + 1)"
    by (rule powr_real_of_int') simp_all
  have "2 powr real_of_int e \<le> \<bar>x\<bar> \<and> \<bar>x\<bar> < 2 powr real_of_int (e + 1)"
    unfolding p1 p2 using assms by simp
  then have "\<lfloor>log 2 \<bar>x\<bar>\<rfloor> = e"
    using floor_log_eq_powr_iff [OF pos, of 2 e] by (simp del: of_int_add)
  then show ?thesis by (simp add: exponent_def)
qed

lemma round_even_of_int: "round_even (of_int k) = k"
  by (simp add: round_even_def)

lemma round_even_cases:
  "round_even y = \<lfloor>y\<rfloor> \<or> round_even y = \<lfloor>y\<rfloor> + 1"
  by (simp add: round_even_def Let_def)

lemma round_even_error: "\<bar>of_int (round_even y) - y\<bar> \<le> 1 / 2"
proof -
  have "of_int \<lfloor>y\<rfloor> \<le> y" "y < of_int \<lfloor>y\<rfloor> + 1" by linarith+
  then show ?thesis
    by (auto simp: round_even_def Let_def abs_le_iff)
qed

lemma round_even_mono:
  assumes "y \<le> y'"
  shows "round_even y \<le> round_even y'"
proof -
  have fl: "\<lfloor>y\<rfloor> \<le> \<lfloor>y'\<rfloor>" using assms by (rule floor_mono)
  show ?thesis
  proof (cases "\<lfloor>y\<rfloor> = \<lfloor>y'\<rfloor>")
    case True
    then have "y - of_int \<lfloor>y\<rfloor> \<le> y' - of_int \<lfloor>y'\<rfloor>" using assms by simp
    then show ?thesis
      using True by (auto simp: round_even_def Let_def)
  next
    case False
    then have "\<lfloor>y\<rfloor> + 1 \<le> \<lfloor>y'\<rfloor>" using fl by simp
    moreover have "round_even y \<le> \<lfloor>y\<rfloor> + 1" using round_even_cases [of y] by auto
    moreover have "\<lfloor>y'\<rfloor> \<le> round_even y'" using round_even_cases [of y'] by auto
    ultimately show ?thesis by simp
  qed
qed

lemma round_even_neg: "round_even (- y) = - round_even y"
proof (cases "y = of_int \<lfloor>y\<rfloor>")
  case True
  then obtain k where "y = of_int k" by blast
  then show ?thesis by (simp add: round_even_of_int flip: of_int_minus)
next
  case False
  then have lt: "of_int \<lfloor>y\<rfloor> < y" by linarith
  have ub: "y < of_int \<lfloor>y\<rfloor> + 1" by linarith
  have f: "\<lfloor>- y\<rfloor> = - \<lfloor>y\<rfloor> - 1"
  proof (rule floor_unique)
    show "of_int (- \<lfloor>y\<rfloor> - 1) \<le> - y" by simp linarith
    show "- y < of_int (- \<lfloor>y\<rfloor> - 1) + 1" using lt by simp
  qed
  show ?thesis
    using lt by (auto simp: round_even_def Let_def f)
qed

lemma round_even_ge: "of_int k \<le> y \<Longrightarrow> k \<le> round_even y"
  using round_even_mono [of "of_int k" y] by (simp add: round_even_of_int)

lemma round_even_le: "y \<le> of_int k \<Longrightarrow> round_even y \<le> k"
  using round_even_mono [of y "of_int k"] by (simp add: round_even_of_int)

lemma fl_zero: "fl 0 = 0"
  by (simp add: fl_def)

lemma fl_eval:
  assumes "2 powi e \<le> \<bar>x\<bar>" "\<bar>x\<bar> < 2 powi (e + 1)"
  shows "fl x = of_int (round_even (x * 2 powi (52 - e))) * 2 powi (e - 52)"
proof -
  have "0 < \<bar>x\<bar>" using assms(1) two_powi_pos [of e] by linarith
  then have "x \<noteq> 0" by simp
  then show ?thesis by (simp add: fl_def exponent_eqI [OF assms])
qed

lemma exponent_neg: "exponent (- x) = exponent x"
  by (simp add: exponent_def)

lemma fl_neg: "fl (- x) = - fl x"
  by (simp add: fl_def exponent_neg round_even_neg)

lemma two_powi_numerals:
  "(2::real) powi 52 = of_int (2 ^ 52)" "(2::real) powi 53 = of_int (2 ^ 53)"
  by simp_all

lemma fl_pos_bounds:
  assumes "0 < x"
  shows "2 powi (exponent x) \<le> fl x" "fl x \<le> 2 powi (exponent x + 1)"
proof -
  define e where "e = exponent x"
  define s where "s = x * 2 powi (52 - e)"
  define r :: real where "r = of_int (round_even s)"
  define u :: real where "u = 2 powi (e - 52)"
  have x: "x \<noteq> 0" using assms by simp
  have b: "2 powi e \<le> x" "x < 2 powi (e + 1)"
    using exponent_bounds [OF x] assms by (simp_all add: e_def)
  have p: "0 < (2::real) powi (52 - e)" by (rule two_powi_pos)
  have e1: "(2::real) powi e * 2 powi (52 - e) = 2 powi 52"
    using two_powi_add [of e "52 - e"] by simp
  have e2: "(2::real) powi (e + 1) * 2 powi (52 - e) = 2 powi 53"
    using two_powi_add [of "e + 1" "52 - e"] by simp
  have "2 powi e * 2 powi (52 - e) \<le> s"
    unfolding s_def using b(1) p by (intro mult_right_mono) simp_all
  then have lo: "of_int (2 ^ 52) \<le> s"
    unfolding e1 two_powi_numerals .
  have "s \<le> 2 powi (e + 1) * 2 powi (52 - e)"
    unfolding s_def using b(2) p by (intro mult_right_mono) simp_all
  then have hi: "s \<le> of_int (2 ^ 53)"
    unfolding e2 two_powi_numerals .
  have "(2 ^ 52 :: int) \<le> round_even s" using lo by (rule round_even_ge)
  then have "(of_int (2 ^ 52) :: real) \<le> of_int (round_even s)" by (simp only: of_int_le_iff)
  then have r1: "2 powi 52 \<le> r" unfolding r_def two_powi_numerals .
  have "round_even s \<le> (2 ^ 53 :: int)" using hi by (rule round_even_le)
  then have "(of_int (round_even s) :: real) \<le> of_int (2 ^ 53)" by (simp only: of_int_le_iff)
  then have r2: "r \<le> 2 powi 53" unfolding r_def two_powi_numerals .
  have f: "fl x = r * u"
    using x by (simp add: fl_def e_def s_def r_def u_def)
  have q: "0 < u" unfolding u_def by (rule two_powi_pos)
  have e3: "(2::real) powi 52 * u = 2 powi e"
    unfolding u_def using two_powi_add [of 52 "e - 52"] by simp
  have e4: "(2::real) powi 53 * u = 2 powi (e + 1)"
    unfolding u_def using two_powi_add [of 53 "e - 52"] by (simp add: add.commute)
  have "2 powi 52 * u \<le> r * u"
    using r1 q by (intro mult_right_mono) simp_all
  then show "2 powi (exponent x) \<le> fl x"
    unfolding f e3 e_def .
  have "r * u \<le> 2 powi 53 * u"
    using r2 q by (intro mult_right_mono) simp_all
  then show "fl x \<le> 2 powi (exponent x + 1)"
    unfolding f e4 e_def .
qed

lemma fl_nonneg: "0 \<le> x \<Longrightarrow> 0 \<le> fl x"
proof (cases "x = 0")
  case True
  then show ?thesis by (simp add: fl_zero)
next
  case False
  assume "0 \<le> x"
  then have "0 < x" using False by simp
  from fl_pos_bounds(1) [OF this] two_powi_pos [of "exponent x"]
  show ?thesis by linarith
qed

lemma exponent_mono:
  assumes "0 < x" "x \<le> y"
  shows "exponent x \<le> exponent y"
proof -
  have "log 2 x \<le> log 2 y" using assms by simp
  then show ?thesis using assms by (simp add: exponent_def floor_mono)
qed

lemma fl_mono_pos:
  assumes "0 < x" "x \<le> y"
  shows "fl x \<le> fl y"
proof (cases "exponent x = exponent y")
  case True
  have "x * 2 powi (52 - exponent y) \<le> y * 2 powi (52 - exponent y)"
    using assms(2) two_powi_pos [of "52 - exponent y"] by (simp add: mult_right_mono)
  then have "round_even (x * 2 powi (52 - exponent y)) \<le> round_even (y * 2 powi (52 - exponent y))"
    by (rule round_even_mono)
  then have "of_int (round_even (x * 2 powi (52 - exponent y))) * 2 powi (exponent y - 52)
      \<le> (of_int (round_even (y * 2 powi (52 - exponent y))) * 2 powi (exponent y - 52) :: real)"
    using two_powi_pos [of "exponent y - 52"] by (intro mult_right_mono) simp_all
  then show ?thesis using assms True by (simp add: fl_def)
next
  case False
  have y: "0 < y" using assms by simp
  have "exponent x < exponent y" using False exponent_mono [OF assms] by simp
  then have "exponent x + 1 \<le> exponent y" by simp
  then have "(2::real) powi (exponent x + 1) \<le> 2 powi (exponent y)" by (rule two_powi_le)
  then show ?thesis
    using fl_pos_bounds(2) [OF assms(1)] fl_pos_bounds(1) [OF y] by linarith
qed

lemma fl_mono:
  assumes "x \<le> y"
  shows "fl x \<le> fl y"
proof -
  consider "0 < x" | "x \<le> 0" "0 \<le> y" | "y < 0" using assms by linarith
  then show ?thesis
  proof cases
    case 1
    then show ?thesis using assms by (rule fl_mono_pos)
  next
    case 2
    have "0 \<le> fl (- x)" using 2(1) by (intro fl_nonneg) simp
    then have "fl x \<le> 0" by (simp add: fl_neg)
    moreover have "0 \<le> fl y" using 2(2) by (rule fl_nonneg)
    ultimately show ?thesis by simp
  next
    case 3
    then have "0 < - y" "- y \<le> - x" using assms by simp_all
    then have "fl (- y) \<le> fl (- x)" by (rule fl_mono_pos)
    then show ?thesis by (simp add: fl_neg)
  qed
qed

lemma fl_exact:
  assumes "\<bar>k\<bar> < 2 ^ 53"
  shows "fl (of_int k * 2 powi j) = of_int k * 2 powi j"
proof (cases "k = 0")
  case True
  then show ?thesis by (simp add: fl_zero)
next
  case False
  define x :: real where "x = of_int k * 2 powi j"
  define e where "e = exponent x"
  have x: "x \<noteq> 0" using False two_powi_pos [of j] by (simp add: x_def)
  have ax: "\<bar>x\<bar> = of_int \<bar>k\<bar> * 2 powi j"
    using two_powi_pos [of j] by (simp add: x_def abs_mult)
  have "of_int \<bar>k\<bar> < (2::real) ^ 53" using assms by (simp only: of_int_less_numeral_power_cancel_iff)
  then have "of_int \<bar>k\<bar> * 2 powi j < (2::real) powi 53 * 2 powi j"
    using two_powi_pos [of j] by (simp add: mult_strict_right_mono)
  then have "\<bar>x\<bar> < 2 powi (53 + j)" by (simp add: ax two_powi_add)
  moreover have "2 powi e \<le> \<bar>x\<bar>" using exponent_bounds(1) [OF x] by (simp add: e_def)
  ultimately have "(2::real) powi e < 2 powi (53 + j)" by linarith
  then have "e < 53 + j" by (rule two_powi_less_cancel)
  then have m: "0 \<le> j + 52 - e" by simp
  have "x * 2 powi (52 - e) = of_int k * 2 powi (j + 52 - e)"
    by (simp add: x_def two_powi_add [symmetric] algebra_simps)
  also have "\<dots> = of_int (k * 2 ^ nat (j + 52 - e))"
    using m by (simp add: power_int_nonneg_exp)
  finally have s: "x * 2 powi (52 - e) = of_int (k * 2 ^ nat (j + 52 - e))" .
  have "fl x = of_int (k * 2 ^ nat (j + 52 - e)) * 2 powi (e - 52)"
    using x by (simp add: fl_def e_def [symmetric] s round_even_of_int del: of_int_mult of_int_power)
  also have "\<dots> = of_int k * 2 powi (j + 52 - e) * 2 powi (e - 52)"
    using m by (simp add: power_int_nonneg_exp)
  also have "\<dots> = of_int k * 2 powi j"
    by (simp add: two_powi_add [symmetric] mult.assoc)
  finally show ?thesis by (simp add: x_def)
qed

lemma is_double_fl: "is_double x \<Longrightarrow> fl x = x"
  using fl_exact by (auto simp: is_double_def)

lemma fl_error: "\<bar>fl x - x\<bar> \<le> 2 powi (- 53) * \<bar>x\<bar>"
proof (cases "x = 0")
  case True
  then show ?thesis by (simp add: fl_zero)
next
  case False
  define e where "e = exponent x"
  define s where "s = x * 2 powi (52 - e)"
  have u: "0 < (2::real) powi (e - 52)" by (rule two_powi_pos)
  have xs: "x = s * 2 powi (e - 52)"
    by (simp add: s_def mult.assoc two_powi_add [symmetric])
  have "fl x - x = (of_int (round_even s) - s) * 2 powi (e - 52)"
    using False by (simp add: fl_def e_def [symmetric] s_def [symmetric] xs [symmetric] algebra_simps)
  then have "\<bar>fl x - x\<bar> = \<bar>of_int (round_even s) - s\<bar> * 2 powi (e - 52)"
    using u by (simp add: abs_mult)
  also have "\<dots> \<le> (1 / 2) * 2 powi (e - 52)"
    using round_even_error [of s] u by (intro mult_right_mono) simp_all
  also have "\<dots> = 2 powi (- 53) * 2 powi e"
    by (simp add: two_powi_add [symmetric] power_int_minus field_simps)
      (simp add: power_int_diff)
  also have "\<dots> \<le> 2 powi (- 53) * \<bar>x\<bar>"
    using exponent_bounds(1) [OF False] two_powi_pos [of "- 53"]
    by (intro mult_left_mono) (simp_all add: e_def)
  finally show ?thesis .
qed


section \<open>Properties of the contour levels\<close>

lemma fl_int: "\<bar>k\<bar> < 2 ^ 53 \<Longrightarrow> fl (real_of_int k) = real_of_int k"
  using fl_exact [of k 0] by simp

lemma fl_div_pow2: "\<bar>k\<bar> < 2 ^ 53 \<Longrightarrow> fl (real_of_int k / 2 ^ t) = real_of_int k / 2 ^ t"
  using fl_exact [of k "- int t"] by (simp add: power_int_minus field_simps)

lemma is_double_int: "\<bar>k\<bar> < 2 ^ 53 \<Longrightarrow> is_double (real_of_int k)"
  unfolding is_double_def by (rule exI [of _ k], rule exI [of _ 0]) simp

lemma is_double_div_pow2: "\<bar>k\<bar> < 2 ^ 53 \<Longrightarrow> is_double (real_of_int k / 2 ^ t)"
  unfolding is_double_def
  by (rule exI [of _ k], rule exI [of _ "- int t"]) (simp add: power_int_minus field_simps)

lemma is_double_mult_pow2:
  assumes "is_double x"
  shows "is_double (x * 2 ^ t)"
proof -
  obtain k j where k: "\<bar>k\<bar> < 2 ^ 53" and x: "x = real_of_int k * 2 powi j"
    using assms unfolding is_double_def by (elim exE conjE) (rule that; assumption)
  have "x * 2 ^ t = real_of_int k * 2 powi (j + int t)"
    by (simp add: x two_powi_add)
  then show ?thesis
    unfolding is_double_def using k by blast
qed

lemma level_range_dyadic:
  fixes a b i :: real and t :: nat
  assumes i: "i = 1 / 2 ^ t" and t: "t \<le> 1"
    and da: "is_double a" and db: "is_double b"
    and ba: "\<bar>a\<bar> \<le> 2 ^ 50" and bb: "\<bar>b\<bar> \<le> 2 ^ 50"
  shows "level_range (Some a) (Some b) i =
           Inr (map (\<lambda>k. real_of_int \<lfloor>a / i\<rfloor> * i + real k * i)
                    [0..<nat (\<lceil>b / i\<rceil> - \<lfloor>a / i\<rfloor> + 1)])"
proof -
  define f where "f = \<lfloor>a / i\<rfloor>"
  define c where "c = \<lceil>b / i\<rceil>"
  define n where "n = nat (c - f + 1)"
  have ipos: "0 < i" "i \<noteq> 0" by (simp_all add: i)
  have p2: "(2::real) ^ t \<le> 2"
    using t power_increasing [of t 1 "2::real"] by simp
  have scale: "\<And>k. real_of_int k * i = real_of_int k / 2 ^ t"
    by (simp add: i)
  have qa: "fl (a / i) = a / i"
    using is_double_fl [OF is_double_mult_pow2 [OF da, of t]] by (simp add: i)
  have qb: "fl (b / i) = b / i"
    using is_double_fl [OF is_double_mult_pow2 [OF db, of t]] by (simp add: i)
  have "\<bar>a / i\<bar> = \<bar>a\<bar> * 2 ^ t" by (simp add: i abs_mult)
  also have "\<dots> \<le> 2 ^ 50 * 2"
    using ba p2 by (intro mult_mono) simp_all
  finally have ai: "\<bar>a / i\<bar> \<le> 2 ^ 51" by simp
  have "\<bar>b / i\<bar> = \<bar>b\<bar> * 2 ^ t" by (simp add: i abs_mult)
  also have "\<dots> \<le> 2 ^ 50 * 2"
    using bb p2 by (intro mult_mono) simp_all
  finally have bi: "\<bar>b / i\<bar> \<le> 2 ^ 51" by simp
  have f1: "- (2 ^ 51) \<le> f"
  proof -
    have "- (2 ^ 51) \<le> a / i" using ai by linarith
    then have "real_of_int (- (2 ^ 51)) \<le> a / i" by simp
    then show ?thesis unfolding f_def by (simp only: le_floor_iff)
  qed
  have f2: "f \<le> 2 ^ 51"
  proof -
    have "real_of_int f \<le> a / i" by (simp add: f_def)
    also have "\<dots> \<le> 2 ^ 51" using ai by linarith
    finally have "real_of_int f \<le> real_of_int (2 ^ 51)" by simp
    then show ?thesis by (simp only: of_int_le_iff)
  qed
  have c2: "c \<le> 2 ^ 51"
  proof -
    have "b / i \<le> 2 ^ 51" using bi by linarith
    then have "b / i \<le> real_of_int (2 ^ 51)" by simp
    then show ?thesis unfolding c_def by (simp only: ceiling_le_iff)
  qed
  have c1: "- (2 ^ 51) \<le> c"
  proof -
    have "- (2 ^ 51) \<le> b / i" using bi by linarith
    also have "\<dots> \<le> real_of_int c" by (simp add: c_def)
    finally have "real_of_int (- (2 ^ 51)) \<le> real_of_int c" by simp
    then show ?thesis by (simp only: of_int_le_iff)
  qed
  have ex: "\<And>k. - (2 ^ 52) - 1 \<le> k \<Longrightarrow> k \<le> 2 ^ 52 + 1 \<Longrightarrow> fl (real_of_int k * i) = real_of_int k * i"
  proof -
    fix k :: int assume "- (2 ^ 52) - 1 \<le> k" "k \<le> 2 ^ 52 + 1"
    then have "\<bar>k\<bar> < 2 ^ 53" by simp
    then show "fl (real_of_int k * i) = real_of_int k * i"
      unfolding scale by (rule fl_div_pow2)
  qed
  have start: "fl (real_of_int f * i) = real_of_int f * i"
    using f1 f2 by (intro ex) simp_all
  have ci: "fl (real_of_int c * i) = real_of_int c * i"
    using c1 c2 by (intro ex) simp_all
  have "real_of_int c * i + i = real_of_int (c + 1) * i"
    by (simp add: algebra_simps)
  moreover have "fl (real_of_int (c + 1) * i) = real_of_int (c + 1) * i"
    using c1 c2 by (intro ex) simp_all
  ultimately have stop: "fl (real_of_int c * i + i) = real_of_int (c + 1) * i"
    by simp
  have "real_of_int (c + 1) * i - real_of_int f * i = real_of_int (c + 1 - f) * i"
    by (simp add: algebra_simps)
  moreover have "fl (real_of_int (c + 1 - f) * i) = real_of_int (c + 1 - f) * i"
    using c1 c2 f1 f2 by (intro ex) simp_all
  ultimately have diff: "fl (real_of_int (c + 1) * i - real_of_int f * i) = real_of_int (c + 1 - f) * i"
    by simp
  have "fl (real_of_int (c + 1 - f)) = real_of_int (c + 1 - f)"
    using c1 c2 f1 f2 by (intro fl_int) simp
  then have len: "fl (real_of_int (c + 1 - f) * i / i) = real_of_int (c + 1 - f)"
    using ipos by simp
  have count: "nat \<lceil>fl (fl (real_of_int (c + 1) * i - real_of_int f * i) / i)\<rceil> = n"
    unfolding diff len n_def by (simp add: algebra_simps)
  have "real_of_int f * i + i = real_of_int (f + 1) * i"
    by (simp add: algebra_simps)
  moreover have "fl (real_of_int (f + 1) * i) = real_of_int (f + 1) * i"
    using f1 f2 by (intro ex) simp_all
  ultimately have nxt: "fl (real_of_int f * i + i) = real_of_int (f + 1) * i"
    by simp
  have "real_of_int (f + 1) * i - real_of_int f * i = real_of_int 1 * i"
    by (simp add: algebra_simps)
  moreover have "fl (real_of_int 1 * i) = real_of_int 1 * i"
    by (intro ex) simp_all
  ultimately have delta: "fl (real_of_int (f + 1) * i - real_of_int f * i) = i"
    by simp
  have vals: "arange_values (real_of_int f * i) i n
                = map (\<lambda>k. real_of_int f * i + real k * i) [0..<n]"
    unfolding arange_values_def Let_def nxt delta
  proof (rule map_cong [OF refl])
    fix k assume "k \<in> set [0..<n]"
    then have k: "int k < c - f + 1" by (simp add: n_def)
    have "real k * i = real_of_int (int k) * i" by simp
    moreover have "fl (real_of_int (int k) * i) = real_of_int (int k) * i"
      using k c2 f1 by (intro ex) simp_all
    ultimately have ki: "fl (real k * i) = real k * i" by simp
    have "real_of_int f * i + real k * i = real_of_int (f + int k) * i"
      by (simp add: algebra_simps)
    moreover have "fl (real_of_int (f + int k) * i) = real_of_int (f + int k) * i"
      using k c2 f1 by (intro ex) simp_all
    ultimately have s: "fl (real_of_int f * i + real k * i) = real_of_int f * i + real k * i"
      by simp
    show "(if k = 0 then real_of_int f * i
           else if k = 1 then real_of_int (f + 1) * i
           else fl (real_of_int f * i + fl (real k * i)))
          = real_of_int f * i + real k * i"
      unfolding ki s by (simp add: algebra_simps)
  qed
  have "level_range (Some a) (Some b) i
          = Inr (arange_values (real_of_int f * i) i
                   (nat \<lceil>fl (fl (real_of_int (c + 1) * i - real_of_int f * i) / i)\<rceil>))"
    using ipos
    by (simp add: level_range_def np_arange_def fmul_def fadd_def fdiv_def lift2_def
        np_floor_def np_ceil_def qa qb start ci stop flip: f_def c_def)
  then show ?thesis
    unfolding count vals unfolding n_def f_def c_def .
qed

lemma fl_numeral: "numeral w < (2::int) ^ 53 \<Longrightarrow> fl (numeral w) = numeral w"
  using fl_int [of "numeral w"] by simp

lemma fl_one: "fl 1 = 1"
  using fl_int [of 1] by simp

lemma is_double_numeral: "numeral w < (2::int) ^ 53 \<Longrightarrow> is_double (numeral w)"
  using is_double_int [of "numeral w"] by simp

lemma is_double_zero: "is_double 0"
  using is_double_int [of 0] by simp

lemma fl_half: "fl (1 / 2) = 1 / 2"
  using fl_div_pow2 [of 1 1] by simp






text \<open>
  Claim C1. The interval is a function of the range width alone, the width being the
  double \<open>r = v_max - v_min\<close> that the script computes. The elevation script selects
  1.0 if \<open>r > 10\<close>, else 0.5 if \<open>r > 5\<close>, else 0.2 if \<open>r > 2\<close>, else 0.1 if
  \<open>r > 1\<close>, else 0.05 if \<open>r > 0.5\<close>, else 0.01; the nitrate script selects 1.0 if
  \<open>r > 10\<close>, else 0.5 if \<open>r > 5\<close>, else 0.2 if \<open>r > 2\<close>, else 0.1. Both agree with
  the tables of the specification for every width, in particular at the widths 10,
  10.0001, 5, 2, 1, 0.5, 0.01 and 0.
\<close>

theorem interval_selection_matches_table:
  "elevation_interval (fsub (Some v_max) (Some v_min)) = elevation_interval (Some (fl (v_max - v_min)))
   \<and> nitrate_interval (fsub (Some v_max) (Some v_min)) = nitrate_interval (Some (fl (v_max - v_min)))
   \<and> elevation_interval (Some r) =
       (if r > 10 then 1.0 else if r > 5 then 0.5 else if r > 2 then 0.2
        else if r > 1 then 0.1 else if r > 0.5 then 0.05 else 0.01)
   \<and> nitrate_interval (Some r) =
       (if r > 10 then 1.0 else if r > 5 then 0.5 else if r > 2 then 0.2 else 0.1)
   \<and> elevation_interval (Some r) = spec_lookup spec_elevation_table 0.01 r
   \<and> nitrate_interval (Some r) = spec_lookup spec_nitrate_table 0.1 r
   \<and> map (\<lambda>r. elevation_interval (Some r)) [10, 10.0001, 5, 2, 1, 0.5, 0.01, 0]
       = [0.5, 1.0, 0.2, 0.1, 0.05, 0.01, 0.01, 0.01]
   \<and> map (\<lambda>r. nitrate_interval (Some r)) [10, 10.0001, 5, 2, 1, 0.5, 0.01, 0]
       = [0.5, 1.0, 0.2, 0.1, 0.1, 0.1, 0.1, 0.1]"
  by (simp add: elevation_interval_def nitrate_interval_def fgt_def fsub_def lift2_def
      spec_lookup_def spec_elevation_table_def spec_nitrate_table_def)



lemma wide_levels_eq:
  assumes "is_double a" and "is_double b" and "\<bar>a\<bar> \<le> 2 ^ 50" and "\<bar>b\<bar> \<le> 2 ^ 50"
  shows "level_range (Some a) (Some b) (literal (1 / 2)) =
           Inr (map (\<lambda>k. real_of_int \<lfloor>a / (1 / 2)\<rfloor> * (1 / 2) + real k * (1 / 2))
                    [0..<nat (\<lceil>b / (1 / 2)\<rceil> - \<lfloor>a / (1 / 2)\<rfloor> + 1)])"
    and "level_range (Some a) (Some b) (literal 1) =
           Inr (map (\<lambda>k. real_of_int \<lfloor>a / 1\<rfloor> * 1 + real k * 1)
                    [0..<nat (\<lceil>b / 1\<rceil> - \<lfloor>a / 1\<rfloor> + 1)])"
proof -
  have h: "literal (1 / 2) = 1 / 2" by (simp add: literal_def fl_half)
  have o: "literal 1 = 1" by (simp add: literal_def fl_one)
  show "level_range (Some a) (Some b) (literal (1 / 2)) =
           Inr (map (\<lambda>k. real_of_int \<lfloor>a / (1 / 2)\<rfloor> * (1 / 2) + real k * (1 / 2))
                    [0..<nat (\<lceil>b / (1 / 2)\<rceil> - \<lfloor>a / (1 / 2)\<rfloor> + 1)])"
    unfolding h by (rule level_range_dyadic [where t = 1]) (use assms in simp_all)
  show "level_range (Some a) (Some b) (literal 1) =
           Inr (map (\<lambda>k. real_of_int \<lfloor>a / 1\<rfloor> * 1 + real k * 1)
                    [0..<nat (\<lceil>b / 1\<rceil> - \<lfloor>a / 1\<rfloor> + 1)])"
    unfolding o by (rule level_range_dyadic [where t = 0]) (use assms in simp_all)
qed

lemma levels_8_14:
  "level_range (Some 8) (Some 14) (literal (1 / 2))
     = Inr [8, 17 / 2, 9, 19 / 2, 10, 21 / 2, 11, 23 / 2, 12, 25 / 2, 13, 27 / 2, 14]"
  by (simp add: wide_levels_eq is_double_numeral upt_rec)


lemma literal_hundredth: "literal (1 / 100) = 5764607523034235 / 576460752303423488"
  unfolding literal_def using fl_eval [of "- 7" "1 / 100"] by (simp add: round_even_def Let_def)










lemma levels_5:
  "level_range (Some 5) (Some 5) (5764607523034235 / 576460752303423488) = Inr [5]"
proof -
  define l :: real where "l = 5764607523034235 / 576460752303423488"
  define e :: real where "e = 2820379266640773 / 562949953421312"
  define d :: real where "d = 5629499534213 / 562949953421312"
  define r :: real where "r = 140737488355325 / 140737488355328"
  have l0: "l \<noteq> 0" by (simp add: l_def)
  have q: "fl (5 / l) = 500"
    unfolding l_def
    using fl_eval [of 8 "5 / (5764607523034235 / 576460752303423488)"]
    by (simp add: round_even_def Let_def)
  have st: "fl (500 * l) = 5"
    unfolding l_def
    using fl_eval [of 2 "500 * (5764607523034235 / 576460752303423488)"]
    by (simp add: round_even_def Let_def)
  have en: "fl (5 + l) = e"
    unfolding l_def e_def
    using fl_eval [of 2 "5 + 5764607523034235 / 576460752303423488"]
    by (simp add: round_even_def Let_def)
  have di: "fl (e - 5) = d"
    unfolding d_def e_def
    using fl_eval [of "- 7" "2820379266640773 / 562949953421312 - 5"]
    by (simp add: round_even_def Let_def)
  have ra: "fl (d / l) = r"
    unfolding r_def d_def l_def
    using fl_eval [of "- 1" "5629499534213 / 562949953421312 / (5764607523034235 / 576460752303423488)"]
    by (simp add: round_even_def Let_def)
  have ce: "\<lceil>r\<rceil> = 1" unfolding r_def by (simp add: ceiling_eq_iff)
  have "level_range (Some 5) (Some 5) l = Inr [5]"
    using l0
    by (simp add: level_range_def np_arange_def fmul_def fadd_def fdiv_def lift2_def
        np_floor_def np_ceil_def arange_values_def Let_def q st en di ra ce)
  then show ?thesis
    unfolding l_def .
qed

lemma constant_series:
  "series_min (map measurement constant_samples) = Some 5"
  "series_max (map measurement constant_samples) = Some 5"
  by (simp_all add: constant_samples_def series_min_def series_max_def)

lemma constant_levels:
  "elevation_levels (Some 5) (Some 5) = Inr [5]"
  by (simp add: elevation_levels_def elevation_interval_def fsub_def lift2_def fgt_def fl_zero
      literal_hundredth levels_5)

text \<open>
  Claim C3 at the input of its example. A range of width zero selects the smallest
  interval of either table. When every sample has the measurement 5.0, the elevation
  script computes the range 0, selects the interval 0.01 and emits the single level 5.0:
  the stop value of its half-open range is the double nearest to 5.01, and the count of
  levels is \<open>ceil(0.9999999999999787) = 1\<close>. \<^verbatim>\<open>ax.contourf\<close> raises
  \<^verbatim>\<open>ValueError\<close> on a single level, so that the run ends with an error whatever
  the transformer and the interpolator return.
\<close>

theorem constant_five_single_level:
  "elevation_interval (fsub (Some v) (Some v)) = 1 / 100
   \<and> nitrate_interval (fsub (Some v) (Some v)) = 1 / 10
   \<and> elevation_interval (fsub (series_max (map measurement constant_samples))
                            (series_min (map measurement constant_samples))) = 1 / 100
   \<and> elevation_levels (series_min (map measurement constant_samples))
                      (series_max (map measurement constant_samples)) = Inr [5]
   \<and> contourf_levels [5] = Inl ValueError
   \<and> elevation_finish constant_samples gx gy gz \<noteq> Inr plot
   \<and> snd (elevation_run transform interpolate constant_samples) \<noteq> Inr plot"
proof -
  have t: "elevation_interval (fsub (Some v) (Some v)) = 1 / 100"
    "nitrate_interval (fsub (Some v) (Some v)) = 1 / 10"
    by (simp_all add: elevation_interval_def nitrate_interval_def fsub_def lift2_def fgt_def
        fl_zero)
  have a: "elevation_interval (fsub (series_max (map measurement constant_samples))
                            (series_min (map measurement constant_samples))) = 1 / 100"
    by (simp add: constant_series elevation_interval_def fsub_def lift2_def fgt_def fl_zero)
  have b: "elevation_levels (series_min (map measurement constant_samples))
                      (series_max (map measurement constant_samples)) = Inr [5]"
    by (simp add: constant_series constant_levels)
  have c: "contourf_levels [5] = Inl ValueError"
    by (simp add: contourf_levels_def)
  have d: "\<And>gx gy gz. elevation_finish constant_samples gx gy gz \<noteq> Inr plot"
    by (simp add: elevation_finish_def b c split: sum.splits prod.splits)
  have e: "snd (elevation_run transform interpolate constant_samples) \<noteq> Inr plot"
    by (simp add: elevation_run_def Let_def d split: sum.splits prod.splits)
  show ?thesis
    using t a b c d e by blast
qed

section \<open>Properties of the grid and the bounds\<close>

lemma series_min_Min: "xs \<noteq> [] \<Longrightarrow> series_min xs = Some (Min (set xs))"
  by (cases xs) (simp_all add: series_min_def Min.set_eq_fold [symmetric] del: set_simps)

lemma series_max_Max: "xs \<noteq> [] \<Longrightarrow> series_max xs = Some (Max (set xs))"
  by (cases xs) (simp_all add: series_max_def Max.set_eq_fold [symmetric] del: set_simps)

lemma fold_np_fmin_None:
  "fold np_fmin r x = None \<longleftrightarrow> x = None \<and> (\<forall>c\<in>set r. c = None)"
  by (induction r arbitrary: x) (auto simp: np_fmin_def split: option.splits)

lemma fold_np_fmin_Some:
  "fold np_fmin r x = Some m \<Longrightarrow>
     Some m \<in> set (x # r) \<and> (\<forall>y. Some y \<in> set (x # r) \<longrightarrow> m \<le> y)"
proof (induction r arbitrary: x)
  case Nil
  then show ?case by simp
next
  case (Cons c r)
  from Cons.prems have "fold np_fmin r (np_fmin c x) = Some m" by simp
  from Cons.IH [OF this]
  have *: "Some m \<in> set (np_fmin c x # r)"
    and **: "\<forall>y. Some y \<in> set (np_fmin c x # r) \<longrightarrow> m \<le> y" by blast+
  show ?case
  proof (cases x)
    case None
    then show ?thesis using * ** by (auto simp: np_fmin_def split: option.splits)
  next
    case (Some a)
    show ?thesis
    proof (cases c)
      case None
      then show ?thesis using * ** Some by (auto simp: np_fmin_def)
    next
      case (Some b)
      have f: "np_fmin c x = Some (min a b)"
        using \<open>x = Some a\<close> Some by (simp add: np_fmin_def min.commute)
      have "m \<le> min a b" using ** f by simp
      then have "m \<le> a" "m \<le> b" by simp_all
      moreover have "Some m \<in> set (x # c # r)"
        using * f \<open>x = Some a\<close> Some by (auto simp: min_def split: if_splits)
      ultimately show ?thesis
        using ** \<open>x = Some a\<close> Some by auto
    qed
  qed
qed

lemma fold_np_fmax_None:
  "fold np_fmax r x = None \<longleftrightarrow> x = None \<and> (\<forall>c\<in>set r. c = None)"
  by (induction r arbitrary: x) (auto simp: np_fmax_def split: option.splits)

lemma fold_np_fmax_Some:
  "fold np_fmax r x = Some m \<Longrightarrow>
     Some m \<in> set (x # r) \<and> (\<forall>y. Some y \<in> set (x # r) \<longrightarrow> y \<le> m)"
proof (induction r arbitrary: x)
  case Nil
  then show ?case by simp
next
  case (Cons c r)
  from Cons.prems have "fold np_fmax r (np_fmax c x) = Some m" by simp
  from Cons.IH [OF this]
  have *: "Some m \<in> set (np_fmax c x # r)"
    and **: "\<forall>y. Some y \<in> set (np_fmax c x # r) \<longrightarrow> y \<le> m" by blast+
  show ?case
  proof (cases x)
    case None
    then show ?thesis using * ** by (auto simp: np_fmax_def split: option.splits)
  next
    case (Some a)
    show ?thesis
    proof (cases c)
      case None
      then show ?thesis using * ** Some by (auto simp: np_fmax_def)
    next
      case (Some b)
      have f: "np_fmax c x = Some (max a b)"
        using \<open>x = Some a\<close> Some by (simp add: np_fmax_def max.commute)
      have "max a b \<le> m" using ** f by simp
      then have "a \<le> m" "b \<le> m" by simp_all
      moreover have "Some m \<in> set (x # c # r)"
        using * f \<open>x = Some a\<close> Some by (auto simp: max_def split: if_splits)
      ultimately show ?thesis
        using ** \<open>x = Some a\<close> Some by auto
    qed
  qed
qed

lemma np_nanmin_finite:
  assumes "Some w \<in> set (concat g)"
  shows "\<exists>m. np_nanmin g = Inr (Some m) \<and> Some m \<in> set (concat g)
            \<and> (\<forall>y. Some y \<in> set (concat g) \<longrightarrow> m \<le> y)"
proof (cases "concat g")
  case Nil
  show ?thesis using assms unfolding Nil by simp
next
  case (Cons x r)
  have "fold np_fmin r x \<noteq> None"
    using assms Cons by (auto simp: fold_np_fmin_None)
  then obtain m where m: "fold np_fmin r x = Some m" by blast
  from fold_np_fmin_Some [OF m] show ?thesis
    using Cons m by (simp add: np_nanmin_def reduce_all_def)
qed

lemma np_nanmax_finite:
  assumes "Some w \<in> set (concat g)"
  shows "\<exists>m. np_nanmax g = Inr (Some m) \<and> Some m \<in> set (concat g)
            \<and> (\<forall>y. Some y \<in> set (concat g) \<longrightarrow> y \<le> m)"
proof (cases "concat g")
  case Nil
  show ?thesis using assms unfolding Nil by simp
next
  case (Cons x r)
  have "fold np_fmax r x \<noteq> None"
    using assms Cons by (auto simp: fold_np_fmax_None)
  then obtain m where m: "fold np_fmax r x = Some m" by blast
  from fold_np_fmax_Some [OF m] show ?thesis
    using Cons m by (simp add: np_nanmax_def reduce_all_def)
qed

lemma np_minimum_simps:
  "np_minimum (Some a) (Some b) = Some (min a b)"
  "np_minimum None c = None"
  "np_minimum c None = None"
  "np_maximum (Some a) (Some b) = Some (max a b)"
  "np_maximum None c = None"
  "np_maximum c None = None"
  by (simp_all add: np_minimum_def np_maximum_def lift2_def split: option.splits)

lemma np_fmin_simps:
  "np_fmin (Some a) (Some b) = Some (min a b)"
  "np_fmax (Some a) (Some b) = Some (max a b)"
  by (simp_all add: np_fmin_def np_fmax_def)

lemma fold_np_minimum_fmin:
  "None \<notin> set (x # r) \<Longrightarrow> fold np_minimum r x = fold np_fmin r x"
proof (induction r arbitrary: x)
  case Nil
  then show ?case by simp
next
  case (Cons c r)
  then obtain a b where ab: "x = Some a" "c = Some b" by (cases x; cases c) auto
  have "None \<notin> set (Some (min b a) # r)" using Cons.prems by simp
  from Cons.IH [OF this] show ?case
    by (simp add: ab np_minimum_simps np_fmin_simps)
qed

lemma fold_np_maximum_fmax:
  "None \<notin> set (x # r) \<Longrightarrow> fold np_maximum r x = fold np_fmax r x"
proof (induction r arbitrary: x)
  case Nil
  then show ?case by simp
next
  case (Cons c r)
  then obtain a b where ab: "x = Some a" "c = Some b" by (cases x; cases c) auto
  have "None \<notin> set (Some (max b a) # r)" using Cons.prems by simp
  from Cons.IH [OF this] show ?case
    by (simp add: ab np_minimum_simps np_fmin_simps)
qed

lemma fold_np_minimum_None: "fold np_minimum r None = None"
  by (induction r) (simp_all add: np_minimum_simps)

lemma fold_np_maximum_None: "fold np_maximum r None = None"
  by (induction r) (simp_all add: np_minimum_simps)

lemma np_amin_eqI:
  assumes m: "Some m \<in> set (concat g)"
    and all: "\<forall>c\<in>set (concat g). \<exists>y. c = Some y \<and> m \<le> y"
  shows "np_amin g = Inr (Some m)"
proof -
  obtain k where k: "np_nanmin g = Inr (Some k)" "Some k \<in> set (concat g)"
    "\<forall>y. Some y \<in> set (concat g) \<longrightarrow> k \<le> y"
    using np_nanmin_finite [OF m] by blast
  have "m \<le> k" using all k(2) by auto
  moreover have "k \<le> m" using k(3) m by blast
  ultimately have km: "k = m" by simp
  have no: "None \<notin> set (concat g)" using all by auto
  show ?thesis
  proof (cases "concat g")
    case Nil
    show ?thesis using m unfolding Nil by simp
  next
    case (Cons x r)
    then have "fold np_minimum r x = fold np_fmin r x"
      using no by (intro fold_np_minimum_fmin) simp
    then show ?thesis
      using k(1) km Cons by (simp add: np_amin_def np_nanmin_def reduce_all_def)
  qed
qed

lemma np_amax_eqI:
  assumes m: "Some m \<in> set (concat g)"
    and all: "\<forall>c\<in>set (concat g). \<exists>y. c = Some y \<and> y \<le> m"
  shows "np_amax g = Inr (Some m)"
proof -
  obtain k where k: "np_nanmax g = Inr (Some k)" "Some k \<in> set (concat g)"
    "\<forall>y. Some y \<in> set (concat g) \<longrightarrow> y \<le> k"
    using np_nanmax_finite [OF m] by blast
  have "k \<le> m" using all k(2) by auto
  moreover have "m \<le> k" using k(3) m by blast
  ultimately have km: "k = m" by simp
  have no: "None \<notin> set (concat g)" using all by auto
  show ?thesis
  proof (cases "concat g")
    case Nil
    show ?thesis using m unfolding Nil by simp
  next
    case (Cons x r)
    then have "fold np_maximum r x = fold np_fmax r x"
      using no by (intro fold_np_maximum_fmax) simp
    then show ?thesis
      using k(1) km Cons by (simp add: np_amax_def np_nanmax_def reduce_all_def)
  qed
qed

lemma reduce_all_NaN:
  assumes "concat g \<noteq> []" "\<forall>c\<in>set (concat g). c = None"
  shows "np_amin g = Inr None" "np_amax g = Inr None"
proof -
  obtain x r where xr: "concat g = x # r" using assms(1) by (cases "concat g") auto
  then have "x = None" using assms(2) by simp
  then show "np_amin g = Inr None" "np_amax g = Inr None"
    using xr by (simp_all add: np_amin_def np_amax_def reduce_all_def fold_np_minimum_None
        fold_np_maximum_None)
qed


lemma resolution_pos: "0 < resolution"
  by (simp add: resolution_def)

lemma set_concat_replicate_rows:
  "set (concat (map (\<lambda>x. replicate resolution x) xs)) = set xs"
  using resolution_pos by (auto simp: set_replicate_conv_if)

lemma set_concat_replicate_axis:
  "set (concat (replicate resolution ys)) = set ys"
  using resolution_pos by (auto simp: set_replicate_conv_if)

lemma only_NaN_cells:
  assumes "set xs = {None}"
  shows "xs \<noteq> [] \<and> (\<forall>c\<in>set xs. c = None)"
proof
  show "xs \<noteq> []"
  proof
    assume "xs = []"
    then have "set xs = {}" by simp
    then have "{None} = ({} :: 'a option set)" unfolding assms .
    then show False by simp
  qed
  show "\<forall>c\<in>set xs. c = None" unfolding assms by simp
qed

lemma series_min_le_max:
  assumes "xs \<noteq> []"
  shows "\<exists>a b. series_min xs = Some a \<and> series_max xs = Some b \<and> a \<le> b"
  using assms by (simp add: series_min_Min series_max_Max)

lemma series_empty: "series_min [] = None" "series_max [] = None"
  by (simp_all add: series_min_def series_max_def)


lemma mgrid_axis_Some:
  "mgrid_axis (Some a) (Some b) =
     map (\<lambda>i. Some (fl (fl (real i * fl (fl (b - a) / 99)) + a))) [0..<100]"
  by (simp add: mgrid_axis_def resolution_def fdiv_def fsub_def fmul_def fadd_def lift2_def)

lemma mgrid_axis_NaN:
  "mgrid_axis None None = map (\<lambda>i. None) [0..<100]"
  by (simp add: mgrid_axis_def resolution_def fdiv_def fsub_def fmul_def fadd_def lift2_def)

lemma axis_step_nonneg:
  assumes "a \<le> b"
  shows "0 \<le> fl (fl (b - a) / 99)"
proof -
  have "0 \<le> fl (b - a)" using assms by (intro fl_nonneg) simp
  then show ?thesis by (intro fl_nonneg) simp
qed

lemma axis_value_mono:
  assumes ab: "a \<le> b" and ij: "i \<le> j"
  shows "fl (fl (real i * fl (fl (b - a) / 99)) + a) \<le> fl (fl (real j * fl (fl (b - a) / 99)) + a)"
proof -
  have "real i * fl (fl (b - a) / 99) \<le> real j * fl (fl (b - a) / 99)"
    using ij axis_step_nonneg [OF ab] by (intro mult_right_mono) simp_all
  then have "fl (real i * fl (fl (b - a) / 99)) \<le> fl (real j * fl (fl (b - a) / 99))"
    by (rule fl_mono)
  then show ?thesis by (intro fl_mono) simp
qed

lemma axis_value_first:
  assumes "is_double a"
  shows "fl (fl (real 0 * s) + a) = a"
  using is_double_fl [OF assms] by (simp add: fl_zero)

lemma set_mgrid_axis:
  "set (mgrid_axis (Some a) (Some b))
     = (\<lambda>i. Some (fl (fl (real i * fl (fl (b - a) / 99)) + a))) ` {0..<100}"
  by (simp add: mgrid_axis_Some)

lemma axis_min_max:
  assumes ab: "a \<le> b" and da: "is_double a"
    and cells: "set (concat g) = set (mgrid_axis (Some a) (Some b))"
  shows "np_amin g = Inr (Some a)"
    and "np_amax g = Inr (Some (fl (fl (99 * fl (fl (b - a) / 99)) + a)))"
proof -
  define v where "v = (\<lambda>i::nat. fl (fl (real i * fl (fl (b - a) / 99)) + a))"
  have c: "set (concat g) = (\<lambda>i. Some (v i)) ` {0..<100}"
    unfolding cells set_mgrid_axis v_def ..
  have v0: "v 0 = a" unfolding v_def using da by (rule axis_value_first)
  have v99: "v 99 = fl (fl (99 * fl (fl (b - a) / 99)) + a)" unfolding v_def by simp
  have lo: "Some a \<in> set (concat g)"
    unfolding c by (rule image_eqI [where x = 0]) (simp_all add: v0)
  have hi: "Some (v 99) \<in> set (concat g)"
    unfolding c by (rule image_eqI [where x = 99]) simp_all
  have bounds: "\<And>i. i < 100 \<Longrightarrow> a \<le> v i \<and> v i \<le> v 99"
  proof -
    fix i :: nat assume i: "i < 100"
    have "v 0 \<le> v i" unfolding v_def using ab by (rule axis_value_mono) simp
    moreover have "v i \<le> v 99" unfolding v_def using ab by (rule axis_value_mono) (use i in simp)
    ultimately show "a \<le> v i \<and> v i \<le> v 99" by (simp add: v0)
  qed
  have "\<forall>c\<in>set (concat g). \<exists>y. c = Some y \<and> a \<le> y"
    unfolding c using bounds by auto
  then show "np_amin g = Inr (Some a)"
    by (rule np_amin_eqI [OF lo])
  have "\<forall>c\<in>set (concat g). \<exists>y. c = Some y \<and> y \<le> v 99"
    unfolding c using bounds by auto
  then have "np_amax g = Inr (Some (v 99))"
    by (rule np_amax_eqI [OF hi])
  then show "np_amax g = Inr (Some (fl (fl (99 * fl (fl (b - a) / 99)) + a)))"
    unfolding v99 .
qed

lemma axis_NaN:
  assumes "set (concat g) = set (mgrid_axis None None)"
  shows "np_amin g = Inr None" "np_amax g = Inr None"
proof -
  have "set (mgrid_axis None None) = {None}"
    by (simp add: mgrid_axis_NaN image_constant_conv)
  with assms have "set (concat g) = {None}" by (rule trans)
  then have "concat g \<noteq> [] \<and> (\<forall>c\<in>set (concat g). c = None)"
    by (rule only_NaN_cells)
  then have ne: "concat g \<noteq> []" and al: "\<forall>c\<in>set (concat g). c = None"
    by blast+
  show "np_amin g = Inr None" using ne al by (rule reduce_all_NaN(1))
  show "np_amax g = Inr None" using ne al by (rule reduce_all_NaN(2))
qed

lemma series_double:
  assumes ne: "xs \<noteq> []" and d: "list_all is_double xs"
  shows "\<exists>a b. series_min xs = Some a \<and> series_max xs = Some b \<and> a \<le> b
            \<and> is_double a \<and> is_double b"
proof -
  have f: "finite (set xs)" "set xs \<noteq> {}" using ne by simp_all
  have "Min (set xs) \<in> set xs" "Max (set xs) \<in> set xs"
    using f by (rule Min_in, rule Max_in)
  then have "is_double (Min (set xs))" "is_double (Max (set xs))"
    using d by (simp_all add: list_all_iff)
  moreover have "Min (set xs) \<le> Max (set xs)" using f by simp
  ultimately show ?thesis
    using ne by (simp add: series_min_Min series_max_Max)
qed

lemma sample_grid_cells:
  "fst (sample_grid df) =
     map (\<lambda>x. replicate 100 x) (mgrid_axis (series_min (map easting df)) (series_max (map easting df)))"
  "snd (sample_grid df) =
     replicate 100 (mgrid_axis (series_min (map northing df)) (series_max (map northing df)))"
  by (simp_all add: sample_grid_def np_mgrid_def resolution_def)

lemma sample_grid_sets:
  "set (concat (fst (sample_grid df)))
     = set (mgrid_axis (series_min (map easting df)) (series_max (map easting df)))"
  "set (concat (snd (sample_grid df)))
     = set (mgrid_axis (series_min (map northing df)) (series_max (map northing df)))"
  by (simp_all only: sample_grid_def np_mgrid_def fst_conv snd_conv set_concat_replicate_rows
        set_concat_replicate_axis)

lemma mgrid_axis_length: "length (mgrid_axis a b) = 100"
  by (simp add: mgrid_axis_def resolution_def)

lemma sample_grid_shape:
  "length (fst (sample_grid df)) = 100"
  "length (snd (sample_grid df)) = 100"
  "list_all (\<lambda>row. length row = 100) (fst (sample_grid df))"
  "list_all (\<lambda>row. length row = 100) (snd (sample_grid df))"
  by (simp_all add: sample_grid_cells mgrid_axis_length list_all_iff)

lemma sample_grid_nth:
  assumes "i < 100" "j < 100"
  shows "fst (sample_grid df) ! i ! j
           = mgrid_axis (series_min (map easting df)) (series_max (map easting df)) ! i"
    and "snd (sample_grid df) ! i ! j
           = mgrid_axis (series_min (map northing df)) (series_max (map northing df)) ! j"
  using assms by (simp_all add: sample_grid_cells mgrid_axis_length)

lemma mgrid_axis_nth:
  assumes "i < 100"
  shows "mgrid_axis (Some a) (Some b) ! i = Some (fl (fl (real i * fl (fl (b - a) / 99)) + a))"
  unfolding mgrid_axis_Some using assms by simp

text \<open>The grid of a set of samples that is not empty: its cells at the two ends of the
  diagonal, and its minimum and maximum.\<close>

lemma sample_grid_corners:
  assumes "df \<noteq> []" and "double_samples df"
  shows "\<exists>e_min e_max n_min n_max e_top n_top.
           series_min (map easting df) = Some e_min \<and> series_max (map easting df) = Some e_max
         \<and> series_min (map northing df) = Some n_min \<and> series_max (map northing df) = Some n_max
         \<and> e_min \<le> e_max \<and> n_min \<le> n_max
         \<and> is_double e_min \<and> is_double e_max \<and> is_double n_min \<and> is_double n_max
         \<and> e_top = fl (fl (99 * fl (fl (e_max - e_min) / 99)) + e_min)
         \<and> n_top = fl (fl (99 * fl (fl (n_max - n_min) / 99)) + n_min)
         \<and> fst (sample_grid df) ! 0 ! 0 = Some e_min \<and> snd (sample_grid df) ! 0 ! 0 = Some n_min
         \<and> fst (sample_grid df) ! 99 ! 99 = Some e_top \<and> snd (sample_grid df) ! 99 ! 99 = Some n_top
         \<and> np_amin (fst (sample_grid df)) = Inr (Some e_min)
         \<and> np_amax (fst (sample_grid df)) = Inr (Some e_top)
         \<and> np_amin (snd (sample_grid df)) = Inr (Some n_min)
         \<and> np_amax (snd (sample_grid df)) = Inr (Some n_top)"
proof -
  have "list_all is_double (map easting df)" "list_all is_double (map northing df)"
    using assms(2) by (simp_all add: double_samples_def list_all_iff)
  moreover have "map easting df \<noteq> []" "map northing df \<noteq> []" using assms(1) by simp_all
  ultimately obtain a b c d where
    e: "series_min (map easting df) = Some a" "series_max (map easting df) = Some b" "a \<le> b"
       "is_double a" "is_double b"
    and n: "series_min (map northing df) = Some c" "series_max (map northing df) = Some d" "c \<le> d"
       "is_double c" "is_double d"
    using series_double [of "map easting df"] series_double [of "map northing df"] by blast
  have c0: "fst (sample_grid df) ! 0 ! 0 = Some a" "snd (sample_grid df) ! 0 ! 0 = Some c"
    using axis_value_first [OF e(4)] axis_value_first [OF n(4)]
    by (simp_all add: sample_grid_nth e n mgrid_axis_nth)
  have c9: "fst (sample_grid df) ! 99 ! 99 = Some (fl (fl (99 * fl (fl (b - a) / 99)) + a))"
    "snd (sample_grid df) ! 99 ! 99 = Some (fl (fl (99 * fl (fl (d - c) / 99)) + c))"
    by (simp_all add: sample_grid_nth e n mgrid_axis_nth)
  have se: "set (concat (fst (sample_grid df))) = set (mgrid_axis (Some a) (Some b))"
    using sample_grid_sets(1) [of df] by (simp add: e)
  have sn: "set (concat (snd (sample_grid df))) = set (mgrid_axis (Some c) (Some d))"
    using sample_grid_sets(2) [of df] by (simp add: n)
  note m = axis_min_max [OF e(3) e(4) se] axis_min_max [OF n(3) n(4) sn]
  show ?thesis
    by (rule exI [of _ a], rule exI [of _ b], rule exI [of _ c], rule exI [of _ d],
        rule exI [of _ "fl (fl (99 * fl (fl (b - a) / 99)) + a)"],
        rule exI [of _ "fl (fl (99 * fl (fl (d - c) / 99)) + c)"])
       (intro conjI e n c0 c9 m refl)
qed

text \<open>The last value of an axis lies within a few units in the last place of the stop
  value.\<close>

lemma axis_top_error:
  assumes ab: "a \<le> b"
  shows "\<bar>fl (fl (99 * fl (fl (b - a) / 99)) + a) - b\<bar>
           \<le> 2 powi (- 53) * \<bar>b\<bar> + 2 powi (- 50) * (b - a)"
proof -
  define u :: real where "u = 2 powi (- 53)"
  define w where "w = b - a"
  define d where "d = fl w"
  define s where "s = fl (d / 99)"
  define p where "p = fl (99 * s)"
  define t where "t = fl (p + a)"
  have u: "0 < u" "u \<le> 1 / 8" "8 * u = 2 powi (- 50)"
    by (simp_all add: u_def power_int_minus)
  have w: "0 \<le> w" using ab by (simp add: w_def)
  have d0: "0 \<le> d" unfolding d_def using w by (rule fl_nonneg)
  have s0: "0 \<le> s" unfolding s_def using d0 by (intro fl_nonneg) simp
  have e1: "\<bar>d - w\<bar> \<le> u * w"
    using fl_error [of w] w by (simp add: d_def u_def)
  have e2: "\<bar>s - d / 99\<bar> \<le> u * (d / 99)"
    using fl_error [of "d / 99"] d0 by (simp add: s_def u_def)
  have e3: "\<bar>p - 99 * s\<bar> \<le> u * (99 * s)"
    using fl_error [of "99 * s"] s0 by (simp add: p_def u_def)
  have e4: "\<bar>t - (p + a)\<bar> \<le> u * \<bar>p + a\<bar>"
    using fl_error [of "p + a"] by (simp add: t_def u_def)
  have uw: "0 \<le> u * w" using u w by simp
  have "u * w \<le> 1 / 8 * w" using u w by (intro mult_right_mono) simp_all
  then have uw8: "8 * (u * w) \<le> w" by simp
  have d2: "d \<le> 2 * w" using e1 uw8 uw by linarith
  have ud: "u * d \<le> 2 * (u * w)"
    using mult_left_mono [OF d2, of u] u by simp
  have ud0: "0 \<le> u * d" using u d0 by simp
  have "99 * s - d = 99 * (s - d / 99)" by simp
  then have "\<bar>99 * s - d\<bar> = 99 * \<bar>s - d / 99\<bar>" by (simp only: abs_mult)
  also have "\<dots> \<le> 99 * (u * (d / 99))" using e2 by (intro mult_left_mono) simp_all
  also have "\<dots> = u * d" by simp
  finally have e2': "\<bar>99 * s - d\<bar> \<le> u * d" .
  have "u * d \<le> 1 / 8 * d" using u d0 by (intro mult_right_mono) simp_all
  then have s2: "99 * s \<le> 2 * d" using e2' by linarith
  have "u * (99 * s) \<le> u * (2 * d)"
    using s2 u by (intro mult_left_mono) simp_all
  then have us: "u * (99 * s) \<le> 4 * (u * w)" using ud by simp
  have pw: "\<bar>p - w\<bar> \<le> 7 * (u * w)"
    using e1 e2' e3 us ud by linarith
  have "p + a = b + (p - w)" by (simp add: w_def)
  then have pa: "\<bar>p + a\<bar> \<le> \<bar>b\<bar> + w" using pw uw8 uw by linarith
  have "u * \<bar>p + a\<bar> \<le> u * (\<bar>b\<bar> + w)"
    using pa u by (intro mult_left_mono) simp_all
  then have "\<bar>t - (p + a)\<bar> \<le> u * \<bar>b\<bar> + u * w"
    using e4 by (simp add: algebra_simps)
  moreover have "t - b = (t - (p + a)) + (p - w)" by (simp add: w_def)
  ultimately have "\<bar>t - b\<bar> \<le> u * \<bar>b\<bar> + 8 * (u * w)"
    using pw by linarith
  also have "8 * (u * w) = 2 powi (- 50) * w"
    using u(3) by (simp add: algebra_simps)
  finally show ?thesis
    unfolding t_def p_def s_def d_def w_def u_def .
qed

lemma axis_top_flat:
  assumes "is_double a"
  shows "fl (fl (99 * fl (fl (a - a) / 99)) + a) = a"
  using is_double_fl [OF assms] by (simp add: fl_zero)

lemma reproject_corners_eq:
  assumes "np_amin gx = Inr a" "np_amax gx = Inr b" "np_amin gy = Inr c" "np_amax gy = Inr d"
  shows "reproject_corners transform gx gy
           = Inr (make_bounds (transform from_crs a c) (transform from_crs b d))"
  by (simp add: reproject_corners_def assms)

text \<open>
  Claim C5, as the scripts have it. For every set of samples that is not empty (so for
  every one with at least four non-colinear points) the 100 by 100 grid starts at the
  sample minimum of each axis: that is its first corner, and its minimum. Its last corner,
  and its maximum, is the value \<open>99 * step + minimum\<close> with
  \<open>step = (maximum - minimum) / 99\<close>, as computed in doubles: it lies within
  \<open>2 ^ -53 * |maximum| + 2 ^ -50 * (maximum - minimum)\<close> of the sample maximum, and
  equals it when the axis has a single value. The reprojection is applied to these two
  corners of the grid.
\<close>

theorem grid_corners_near_sample_extremes:
  assumes "df \<noteq> []" and "double_samples df"
  shows "\<exists>e_min e_max n_min n_max e_top n_top.
           series_min (map easting df) = Some e_min \<and> series_max (map easting df) = Some e_max
         \<and> series_min (map northing df) = Some n_min \<and> series_max (map northing df) = Some n_max
         \<and> e_top = fl (fl (99 * fl (fl (e_max - e_min) / 99)) + e_min)
         \<and> n_top = fl (fl (99 * fl (fl (n_max - n_min) / 99)) + n_min)
         \<and> length (fst (sample_grid df)) = 100 \<and> length (snd (sample_grid df)) = 100
         \<and> list_all (\<lambda>row. length row = 100) (fst (sample_grid df))
         \<and> list_all (\<lambda>row. length row = 100) (snd (sample_grid df))
         \<and> fst (sample_grid df) ! 0 ! 0 = Some e_min \<and> snd (sample_grid df) ! 0 ! 0 = Some n_min
         \<and> fst (sample_grid df) ! 99 ! 99 = Some e_top \<and> snd (sample_grid df) ! 99 ! 99 = Some n_top
         \<and> np_amin (fst (sample_grid df)) = Inr (Some e_min)
         \<and> np_amax (fst (sample_grid df)) = Inr (Some e_top)
         \<and> np_amin (snd (sample_grid df)) = Inr (Some n_min)
         \<and> np_amax (snd (sample_grid df)) = Inr (Some n_top)
         \<and> \<bar>e_top - e_max\<bar> \<le> 2 powi (- 53) * \<bar>e_max\<bar> + 2 powi (- 50) * (e_max - e_min)
         \<and> \<bar>n_top - n_max\<bar> \<le> 2 powi (- 53) * \<bar>n_max\<bar> + 2 powi (- 50) * (n_max - n_min)
         \<and> (e_min = e_max \<longrightarrow> e_top = e_max)
         \<and> (n_min = n_max \<longrightarrow> n_top = n_max)
         \<and> (\<forall>transform.
               reproject_corners transform (fst (sample_grid df)) (snd (sample_grid df))
                 = Inr (make_bounds (transform from_crs (Some e_min) (Some n_min))
                                    (transform from_crs (Some e_top) (Some n_top))))"
proof -
  obtain a b c d et nt where
    s: "series_min (map easting df) = Some a" "series_max (map easting df) = Some b"
       "series_min (map northing df) = Some c" "series_max (map northing df) = Some d"
    and o: "a \<le> b" "c \<le> d"
    and dbl: "is_double a" "is_double b" "is_double c" "is_double d"
    and t: "et = fl (fl (99 * fl (fl (b - a) / 99)) + a)"
           "nt = fl (fl (99 * fl (fl (d - c) / 99)) + c)"
    and cells: "fst (sample_grid df) ! 0 ! 0 = Some a" "snd (sample_grid df) ! 0 ! 0 = Some c"
       "fst (sample_grid df) ! 99 ! 99 = Some et" "snd (sample_grid df) ! 99 ! 99 = Some nt"
    and m: "np_amin (fst (sample_grid df)) = Inr (Some a)"
       "np_amax (fst (sample_grid df)) = Inr (Some et)"
       "np_amin (snd (sample_grid df)) = Inr (Some c)"
       "np_amax (snd (sample_grid df)) = Inr (Some nt)"
    using sample_grid_corners [OF assms] by (elim exE conjE) (rule that; assumption)
  have near: "\<bar>et - b\<bar> \<le> 2 powi (- 53) * \<bar>b\<bar> + 2 powi (- 50) * (b - a)"
    "\<bar>nt - d\<bar> \<le> 2 powi (- 53) * \<bar>d\<bar> + 2 powi (- 50) * (d - c)"
    unfolding t by (rule axis_top_error [OF o(1)], rule axis_top_error [OF o(2)])
  have flat: "a = b \<longrightarrow> et = b" "c = d \<longrightarrow> nt = d"
    unfolding t using axis_top_flat [OF dbl(1)] axis_top_flat [OF dbl(3)] by auto
  have r: "\<forall>transform.
             reproject_corners transform (fst (sample_grid df)) (snd (sample_grid df))
               = Inr (make_bounds (transform from_crs (Some a) (Some c))
                                  (transform from_crs (Some et) (Some nt)))"
    using reproject_corners_eq [OF m] by blast
  show ?thesis
    by (rule exI [of _ a], rule exI [of _ b], rule exI [of _ c], rule exI [of _ d],
        rule exI [of _ et], rule exI [of _ nt])
       (intro conjI s t sample_grid_shape cells m near flat r)
qed

lemma example_series:
  "series_min (map easting example_samples) = Some 0"
  "series_max (map easting example_samples) = Some 10"
  "series_min (map northing example_samples) = Some 0"
  "series_max (map northing example_samples) = Some 10"
  "series_min (map measurement example_samples) = Some 8"
  "series_max (map measurement example_samples) = Some 14"
  by (simp_all add: example_samples_def series_min_def series_max_def)

lemma example_double: "double_samples example_samples"
  by (simp add: double_samples_def example_samples_def is_double_numeral is_double_zero)

lemma axis_top_10: "fl (fl (99 * fl (fl (10 - 0) / 99)) + 0) = 10"
proof -
  define s :: real where "s = 7278544852315953 / 72057594037927936"
  have a: "fl (10 / 99) = s"
    unfolding s_def using fl_eval [of "- 4" "10 / 99"] by (simp add: round_even_def Let_def)
  have b: "fl (99 * s) = 10"
    unfolding s_def using fl_eval [of 3 "99 * (7278544852315953 / 72057594037927936)"]
    by (simp add: round_even_def Let_def)
  show ?thesis by (simp add: fl_numeral a b)
qed

lemma axis_top_13:
  "fl (fl (99 * fl (fl (13 - 0) / 99)) + 0) = 7318349394477057 / 562949953421312"
proof -
  define s :: real where "s = 2365527077002685 / 18014398509481984"
  define t :: real where "t = 7318349394477057 / 562949953421312"
  have a: "fl (13 / 99) = s"
    unfolding s_def using fl_eval [of "- 3" "13 / 99"] by (simp add: round_even_def Let_def)
  have b: "fl (99 * s) = t"
    unfolding s_def t_def using fl_eval [of 3 "99 * (2365527077002685 / 18014398509481984)"]
    by (simp add: round_even_def Let_def)
  have c: "fl t = t"
    unfolding t_def using fl_eval [of 3 "7318349394477057 / 562949953421312"]
    by (simp add: round_even_def Let_def)
  have "fl (fl (99 * fl (fl (13 - 0) / 99)) + 0) = t" by (simp add: fl_numeral a b c)
  then show ?thesis unfolding t_def .
qed

lemma axis_top_27:
  "fl (fl (99 * fl (fl (27 - 0) / 99)) + 0) = 7599824371187711 / 281474976710656"
proof -
  define s :: real where "s = 1228254443828317 / 4503599627370496"
  define t :: real where "t = 7599824371187711 / 281474976710656"
  have a: "fl (3 / 11) = s"
    unfolding s_def using fl_eval [of "- 2" "3 / 11"] by (simp add: round_even_def Let_def)
  have b: "fl (99 * s) = t"
    unfolding s_def t_def using fl_eval [of 4 "99 * (1228254443828317 / 4503599627370496)"]
    by (simp add: round_even_def Let_def)
  have c: "fl t = t"
    unfolding t_def using fl_eval [of 4 "7599824371187711 / 281474976710656"]
    by (simp add: round_even_def Let_def)
  have "fl (fl (99 * fl (fl (27 - 0) / 99)) + 0) = t" by (simp add: fl_numeral a b c)
  then show ?thesis unfolding t_def .
qed

theorem grid_corners_near_sample_extremes_witness:
  "example_samples \<noteq> [] \<and> double_samples example_samples
   \<and> fst (sample_grid example_samples) ! 0 ! 0 = Some 0
   \<and> snd (sample_grid example_samples) ! 0 ! 0 = Some 0
   \<and> fst (sample_grid example_samples) ! 99 ! 99 = Some 10
   \<and> snd (sample_grid example_samples) ! 99 ! 99 = Some 10
   \<and> np_amin (fst (sample_grid example_samples)) = Inr (Some 0)
   \<and> np_amax (fst (sample_grid example_samples)) = Inr (Some 10)
   \<and> np_amin (snd (sample_grid example_samples)) = Inr (Some 0)
   \<and> np_amax (snd (sample_grid example_samples)) = Inr (Some 10)
   \<and> reproject_corners identity_transform
         (fst (sample_grid example_samples)) (snd (sample_grid example_samples))
       = Inr [(''min_lat'', Some 0), (''min_lon'', Some 0),
              (''max_lat'', Some 10), (''max_lon'', Some 10)]"
proof -
  have ne: "example_samples \<noteq> []" by (simp add: example_samples_def)
  obtain a b c d et nt where
    s: "series_min (map easting example_samples) = Some a"
       "series_max (map easting example_samples) = Some b"
       "series_min (map northing example_samples) = Some c"
       "series_max (map northing example_samples) = Some d"
    and t: "et = fl (fl (99 * fl (fl (b - a) / 99)) + a)"
           "nt = fl (fl (99 * fl (fl (d - c) / 99)) + c)"
    and cells: "fst (sample_grid example_samples) ! 0 ! 0 = Some a"
       "snd (sample_grid example_samples) ! 0 ! 0 = Some c"
       "fst (sample_grid example_samples) ! 99 ! 99 = Some et"
       "snd (sample_grid example_samples) ! 99 ! 99 = Some nt"
    and m: "np_amin (fst (sample_grid example_samples)) = Inr (Some a)"
       "np_amax (fst (sample_grid example_samples)) = Inr (Some et)"
       "np_amin (snd (sample_grid example_samples)) = Inr (Some c)"
       "np_amax (snd (sample_grid example_samples)) = Inr (Some nt)"
    and r: "\<forall>transform.
               reproject_corners transform (fst (sample_grid example_samples))
                   (snd (sample_grid example_samples))
                 = Inr (make_bounds (transform from_crs (Some a) (Some c))
                                    (transform from_crs (Some et) (Some nt)))"
    using grid_corners_near_sample_extremes [OF ne example_double]
    by (elim exE conjE) (rule that; assumption)
  have v: "a = 0" "b = 10" "c = 0" "d = 10"
    using s by (simp_all add: example_series)
  have tv: "et = 10" "nt = 10"
    unfolding t v by (rule axis_top_10)+
  have bounds: "reproject_corners identity_transform
         (fst (sample_grid example_samples)) (snd (sample_grid example_samples))
       = Inr [(''min_lat'', Some 0), (''min_lon'', Some 0),
              (''max_lat'', Some 10), (''max_lon'', Some 10)]"
    using r by (simp add: v tv make_bounds_def identity_transform_def)
  show ?thesis
    using ne example_double cells m bounds unfolding v tv by (intro conjI)
qed

lemma mgrid_axis_last:
  "mgrid_axis (Some a) (Some b) ! 99 = Some (fl (fl (99 * fl (fl (b - a) / 99)) + a))"
  using mgrid_axis_nth [of 99 a b] by simp

lemma offset_series:
  "series_min (map easting offset_samples) = Some 0"
  "series_max (map easting offset_samples) = Some 13"
  "series_min (map northing offset_samples) = Some 0"
  "series_max (map northing offset_samples) = Some 27"
  by (simp_all add: offset_samples_def series_min_def series_max_def)

text \<open>
  With eastings from 0 to 13 and northings from 0 to 27 the last corner of the grid, and
  the maximum of the grid that the reprojection consumes, is
  (13.000000000000002, 26.999999999999996) and not the maximum (13, 27) of the samples.
\<close>

theorem grid_maximum_differs_from_sample_maximum:
  "series_max (map easting offset_samples) = Some 13
   \<and> series_max (map northing offset_samples) = Some 27
   \<and> fst (sample_grid offset_samples) ! 99 ! 99 = Some (7318349394477057 / 562949953421312)
   \<and> snd (sample_grid offset_samples) ! 99 ! 99 = Some (7599824371187711 / 281474976710656)
   \<and> np_amax (fst (sample_grid offset_samples)) = Inr (Some (7318349394477057 / 562949953421312))
   \<and> np_amax (snd (sample_grid offset_samples)) = Inr (Some (7599824371187711 / 281474976710656))
   \<and> (13::real) < 7318349394477057 / 562949953421312
   \<and> (7599824371187711 / 281474976710656 :: real) < 27
   \<and> reproject_corners identity_transform
         (fst (sample_grid offset_samples)) (snd (sample_grid offset_samples))
       = Inr [(''min_lat'', Some 0), (''min_lon'', Some 0),
              (''max_lat'', Some (7599824371187711 / 281474976710656)),
              (''max_lon'', Some (7318349394477057 / 562949953421312))]"
proof -
  have se: "set (concat (fst (sample_grid offset_samples))) = set (mgrid_axis (Some 0) (Some 13))"
    using sample_grid_sets(1) [of offset_samples] by (simp add: offset_series)
  have sn: "set (concat (snd (sample_grid offset_samples))) = set (mgrid_axis (Some 0) (Some 27))"
    using sample_grid_sets(2) [of offset_samples] by (simp add: offset_series)
  have m: "np_amin (fst (sample_grid offset_samples)) = Inr (Some 0)"
    "np_amax (fst (sample_grid offset_samples)) = Inr (Some (7318349394477057 / 562949953421312))"
    "np_amin (snd (sample_grid offset_samples)) = Inr (Some 0)"
    "np_amax (snd (sample_grid offset_samples)) = Inr (Some (7599824371187711 / 281474976710656))"
    using axis_min_max [of 0 13, OF _ is_double_zero se, unfolded axis_top_13]
      axis_min_max [of 0 27, OF _ is_double_zero sn, unfolded axis_top_27]
    by simp_all
  have c: "fst (sample_grid offset_samples) ! 99 ! 99 = Some (7318349394477057 / 562949953421312)"
    "snd (sample_grid offset_samples) ! 99 ! 99 = Some (7599824371187711 / 281474976710656)"
  proof -
    have "fst (sample_grid offset_samples) ! 99 ! 99 = mgrid_axis (Some 0) (Some 13) ! 99"
      by (simp add: sample_grid_nth offset_series)
    then show "fst (sample_grid offset_samples) ! 99 ! 99 = Some (7318349394477057 / 562949953421312)"
      unfolding mgrid_axis_last axis_top_13 .
    have "snd (sample_grid offset_samples) ! 99 ! 99 = mgrid_axis (Some 0) (Some 27) ! 99"
      by (simp add: sample_grid_nth offset_series)
    then show "snd (sample_grid offset_samples) ! 99 ! 99 = Some (7599824371187711 / 281474976710656)"
      unfolding mgrid_axis_last axis_top_27 .
  qed
  have r: "reproject_corners identity_transform
         (fst (sample_grid offset_samples)) (snd (sample_grid offset_samples))
       = Inr [(''min_lat'', Some 0), (''min_lon'', Some 0),
              (''max_lat'', Some (7599824371187711 / 281474976710656)),
              (''max_lon'', Some (7318349394477057 / 562949953421312))]"
    by (simp add: reproject_corners_eq [OF m] make_bounds_def identity_transform_def)
  show ?thesis
    using offset_series(2,4) c m(2,4) r by simp
qed

lemma make_bounds_pair:
  "make_bounds lo hi =
     [(''min_lat'', snd lo), (''min_lon'', fst lo), (''max_lat'', snd hi), (''max_lon'', fst hi)]"
  by (cases lo; cases hi) (simp add: make_bounds_def)

lemma reduce_all_Inr:
  assumes "concat g \<noteq> []"
  shows "\<exists>r. reduce_all f g = Inr r"
  using assms by (cases "concat g") (simp_all add: reduce_all_def)

lemma sample_grid_not_empty:
  "concat (fst (sample_grid df)) \<noteq> []" "concat (snd (sample_grid df)) \<noteq> []"
proof -
  have "\<And>a b. set (mgrid_axis a b) \<noteq> {}"
    using mgrid_axis_length by (metis length_0_conv set_empty zero_neq_numeral)
  then have "set (concat (fst (sample_grid df))) \<noteq> {}" "set (concat (snd (sample_grid df))) \<noteq> {}"
    unfolding sample_grid_sets by blast+
  then show "concat (fst (sample_grid df)) \<noteq> []" "concat (snd (sample_grid df)) \<noteq> []"
    by (simp_all only: set_empty not_False_eq_True)
qed

text \<open>The minimum and the maximum of the two coordinate arrays of the grid exist in
  every run.\<close>

lemma sample_grid_extremes_exist:
  "\<exists>a b c d. np_amin (fst (sample_grid df)) = Inr a \<and> np_amax (fst (sample_grid df)) = Inr b
           \<and> np_amin (snd (sample_grid df)) = Inr c \<and> np_amax (snd (sample_grid df)) = Inr d"
  using reduce_all_Inr [OF sample_grid_not_empty(1), of np_minimum df]
    reduce_all_Inr [OF sample_grid_not_empty(1), of np_maximum df]
    reduce_all_Inr [OF sample_grid_not_empty(2), of np_minimum df]
    reduce_all_Inr [OF sample_grid_not_empty(2), of np_maximum df]
  unfolding np_amin_def np_amax_def by blast

lemma run_files:
  assumes "np_amin (fst (sample_grid df)) = Inr a" "np_amax (fst (sample_grid df)) = Inr b"
    "np_amin (snd (sample_grid df)) = Inr c" "np_amax (snd (sample_grid df)) = Inr d"
  shows "fst (elevation_run transform interpolate df) =
           [(''image_bounds.json'', make_bounds (transform from_crs a c) (transform from_crs b d))]"
    and "fst (nitrate_run transform interpolate df) =
           [(''nitrate_bounds.json'', make_bounds (transform from_crs a c) (transform from_crs b d))]"
proof -
  obtain gx gy where g: "sample_grid df = (gx, gy)" by (cases "sample_grid df")
  have r: "reproject_corners transform gx gy
             = Inr (make_bounds (transform from_crs a c) (transform from_crs b d))"
    using reproject_corners_eq [OF assms, of transform] by (simp add: g)
  show "fst (elevation_run transform interpolate df) =
           [(''image_bounds.json'', make_bounds (transform from_crs a c) (transform from_crs b d))]"
    by (simp add: elevation_run_def g r Let_def split: sum.splits prod.splits)
  show "fst (nitrate_run transform interpolate df) =
           [(''nitrate_bounds.json'', make_bounds (transform from_crs a c) (transform from_crs b d))]"
    by (simp add: nitrate_run_def g r Let_def split: sum.splits prod.splits)
qed



lemma example_grid_extremes:
  "np_amin (fst (sample_grid example_samples)) = Inr (Some 0)"
  "np_amax (fst (sample_grid example_samples)) = Inr (Some 10)"
  "np_amin (snd (sample_grid example_samples)) = Inr (Some 0)"
  "np_amax (snd (sample_grid example_samples)) = Inr (Some 10)"
proof -
  have se: "set (concat (fst (sample_grid example_samples))) = set (mgrid_axis (Some 0) (Some 10))"
    using sample_grid_sets(1) [of example_samples] by (simp add: example_series)
  have sn: "set (concat (snd (sample_grid example_samples))) = set (mgrid_axis (Some 0) (Some 10))"
    using sample_grid_sets(2) [of example_samples] by (simp add: example_series)
  show "np_amin (fst (sample_grid example_samples)) = Inr (Some 0)"
    "np_amax (fst (sample_grid example_samples)) = Inr (Some 10)"
    "np_amin (snd (sample_grid example_samples)) = Inr (Some 0)"
    "np_amax (snd (sample_grid example_samples)) = Inr (Some 10)"
    using axis_min_max [of 0 10, OF _ is_double_zero se, unfolded axis_top_10]
      axis_min_max [of 0 10, OF _ is_double_zero sn, unfolded axis_top_10]
    by simp_all
qed



lemma axis_top_ge:
  assumes "a \<le> b" "is_double a"
  shows "a \<le> fl (fl (99 * fl (fl (b - a) / 99)) + a)"
proof -
  have "fl (fl (real 0 * fl (fl (b - a) / 99)) + a) \<le> fl (fl (real 99 * fl (fl (b - a) / 99)) + a)"
    using assms(1) by (rule axis_value_mono) simp
  then show ?thesis
    unfolding axis_value_first [OF assms(2)] by simp
qed

text \<open>
  Claim C10, as the scripts have it. The four fields of the bounds are the coordinates of
  the images of two points: \<open>min_lon\<close> and \<open>min_lat\<close> of the minimum of the two
  coordinate arrays of the grid, \<open>max_lon\<close> and \<open>max_lat\<close> of their maximum. Nothing
  compares or swaps them afterwards. For samples that are doubles and not empty they are
  in order when the transformation is monotone in both axes over the box of the grid; a
  transformation that reverses the axes gives \<open>min_lat > max_lat\<close> and
  \<open>min_lon > max_lon\<close>; and under a transformation that turns the box, the other two
  corners have a longitude below \<open>min_lon\<close> and above \<open>max_lon\<close>.
\<close>

theorem bounds_are_images_of_diagonal_corners:
  fixes transform :: pyproj and interpolate :: griddata and df :: "sample list"
  shows "(\<exists>min_easting max_easting min_northing max_northing lo hi.
             np_amin (fst (sample_grid df)) = Inr min_easting
           \<and> np_amax (fst (sample_grid df)) = Inr max_easting
           \<and> np_amin (snd (sample_grid df)) = Inr min_northing
           \<and> np_amax (snd (sample_grid df)) = Inr max_northing
           \<and> lo = transform from_crs min_easting min_northing
           \<and> hi = transform from_crs max_easting max_northing
           \<and> fst (elevation_run transform interpolate df) = [(''image_bounds.json'', make_bounds lo hi)]
           \<and> fst (nitrate_run transform interpolate df) = [(''nitrate_bounds.json'', make_bounds lo hi)]
           \<and> map_of (make_bounds lo hi) ''min_lon'' = Some (fst lo)
           \<and> map_of (make_bounds lo hi) ''min_lat'' = Some (snd lo)
           \<and> map_of (make_bounds lo hi) ''max_lon'' = Some (fst hi)
           \<and> map_of (make_bounds lo hi) ''max_lat'' = Some (snd hi)
           \<and> (\<forall>e_min e_max n_min n_max.
                df \<noteq> [] \<and> double_samples df
                \<and> min_easting = Some e_min \<and> max_easting = Some e_max
                \<and> min_northing = Some n_min \<and> max_northing = Some n_max
                \<and> monotone_on_box transform e_min e_max n_min n_max
              \<longrightarrow> fle (snd lo) (snd hi) \<and> fle (fst lo) (fst hi)))
       \<and> fst (elevation_run reversing_transform interpolate example_samples)
           = [(''image_bounds.json'',
               [(''min_lat'', Some 0), (''min_lon'', Some 0),
                (''max_lat'', Some (- 10)), (''max_lon'', Some (- 10))])]
       \<and> fst (elevation_run turning_transform interpolate example_samples)
           = [(''image_bounds.json'',
               [(''min_lat'', Some 0), (''min_lon'', Some 0),
                (''max_lat'', Some 20), (''max_lon'', Some 0)])]
       \<and> fst (turning_transform from_crs (Some 0) (Some 10)) = Some (- 10)
       \<and> fst (turning_transform from_crs (Some 10) (Some 0)) = Some 10"
proof -
  obtain a b c d where
    m: "np_amin (fst (sample_grid df)) = Inr a" "np_amax (fst (sample_grid df)) = Inr b"
       "np_amin (snd (sample_grid df)) = Inr c" "np_amax (snd (sample_grid df)) = Inr d"
    using sample_grid_extremes_exist [of df] by (elim exE conjE) (rule that; assumption)
  define lo where "lo = transform from_crs a c"
  define hi where "hi = transform from_crs b d"
  have lh: "lo = transform from_crs a c" "hi = transform from_crs b d"
    by (simp_all add: lo_def hi_def)
  have f: "fst (elevation_run transform interpolate df) = [(''image_bounds.json'', make_bounds lo hi)]"
    "fst (nitrate_run transform interpolate df) = [(''nitrate_bounds.json'', make_bounds lo hi)]"
    unfolding lo_def hi_def by (rule run_files [OF m])+
  have l: "map_of (make_bounds lo hi) ''min_lon'' = Some (fst lo)"
    "map_of (make_bounds lo hi) ''min_lat'' = Some (snd lo)"
    "map_of (make_bounds lo hi) ''max_lon'' = Some (fst hi)"
    "map_of (make_bounds lo hi) ''max_lat'' = Some (snd hi)"
    by (simp_all add: make_bounds_pair)
  have mono: "\<forall>e_min e_max n_min n_max.
                df \<noteq> [] \<and> double_samples df
                \<and> a = Some e_min \<and> b = Some e_max \<and> c = Some n_min \<and> d = Some n_max
                \<and> monotone_on_box transform e_min e_max n_min n_max
              \<longrightarrow> fle (snd lo) (snd hi) \<and> fle (fst lo) (fst hi)"
  proof (intro allI impI)
    fix e_min e_max n_min n_max
    assume h: "df \<noteq> [] \<and> double_samples df
                \<and> a = Some e_min \<and> b = Some e_max \<and> c = Some n_min \<and> d = Some n_max
                \<and> monotone_on_box transform e_min e_max n_min n_max"
    then have ne: "df \<noteq> []" and db: "double_samples df"
      and v: "a = Some e_min" "b = Some e_max" "c = Some n_min" "d = Some n_max"
      and mb: "monotone_on_box transform e_min e_max n_min n_max" by simp_all
    obtain e0 e1 n0 n1 et nt where
      o: "e0 \<le> e1" "n0 \<le> n1" and dd: "is_double e0" "is_double n0"
      and t: "et = fl (fl (99 * fl (fl (e1 - e0) / 99)) + e0)"
             "nt = fl (fl (99 * fl (fl (n1 - n0) / 99)) + n0)"
      and g: "np_amin (fst (sample_grid df)) = Inr (Some e0)"
             "np_amax (fst (sample_grid df)) = Inr (Some et)"
             "np_amin (snd (sample_grid df)) = Inr (Some n0)"
             "np_amax (snd (sample_grid df)) = Inr (Some nt)"
      using sample_grid_corners [OF ne db] by (elim exE conjE) (rule that; assumption)
    have w: "e_min = e0" "e_max = et" "n_min = n0" "n_max = nt"
      using m g v by simp_all
    have "e0 \<le> et" "n0 \<le> nt"
      unfolding t by (rule axis_top_ge [OF o(1) dd(1)], rule axis_top_ge [OF o(2) dd(2)])
    then have "e0 \<le> e0 \<and> e0 \<le> et \<and> et \<le> et \<and> n0 \<le> n0 \<and> n0 \<le> nt \<and> nt \<le> nt" by simp
    moreover have "monotone_on_box transform e0 et n0 nt"
      using mb by (simp add: w)
    ultimately have
      "fle (fst (transform from_crs (Some e0) (Some n0))) (fst (transform from_crs (Some et) (Some nt)))
       \<and> fle (snd (transform from_crs (Some e0) (Some n0))) (snd (transform from_crs (Some et) (Some nt)))"
      unfolding monotone_on_box_def by blast
    then show "fle (snd lo) (snd hi) \<and> fle (fst lo) (fst hi)"
      by (simp add: lo_def hi_def v w)
  qed
  have first: "\<exists>min_easting max_easting min_northing max_northing lo hi.
             np_amin (fst (sample_grid df)) = Inr min_easting
           \<and> np_amax (fst (sample_grid df)) = Inr max_easting
           \<and> np_amin (snd (sample_grid df)) = Inr min_northing
           \<and> np_amax (snd (sample_grid df)) = Inr max_northing
           \<and> lo = transform from_crs min_easting min_northing
           \<and> hi = transform from_crs max_easting max_northing
           \<and> fst (elevation_run transform interpolate df) = [(''image_bounds.json'', make_bounds lo hi)]
           \<and> fst (nitrate_run transform interpolate df) = [(''nitrate_bounds.json'', make_bounds lo hi)]
           \<and> map_of (make_bounds lo hi) ''min_lon'' = Some (fst lo)
           \<and> map_of (make_bounds lo hi) ''min_lat'' = Some (snd lo)
           \<and> map_of (make_bounds lo hi) ''max_lon'' = Some (fst hi)
           \<and> map_of (make_bounds lo hi) ''max_lat'' = Some (snd hi)
           \<and> (\<forall>e_min e_max n_min n_max.
                df \<noteq> [] \<and> double_samples df
                \<and> min_easting = Some e_min \<and> max_easting = Some e_max
                \<and> min_northing = Some n_min \<and> max_northing = Some n_max
                \<and> monotone_on_box transform e_min e_max n_min n_max
              \<longrightarrow> fle (snd lo) (snd hi) \<and> fle (fst lo) (fst hi))"
    by (rule exI [of _ a], rule exI [of _ b], rule exI [of _ c], rule exI [of _ d],
        rule exI [of _ lo], rule exI [of _ hi]) (intro conjI m lh f l mono)
  have rev: "fst (elevation_run reversing_transform interpolate example_samples)
           = [(''image_bounds.json'',
               [(''min_lat'', Some 0), (''min_lon'', Some 0),
                (''max_lat'', Some (- 10)), (''max_lon'', Some (- 10))])]"
    by (simp add: run_files(1) [OF example_grid_extremes] make_bounds_pair
        reversing_transform_def fneg_def)
  have rot: "fst (elevation_run turning_transform interpolate example_samples)
           = [(''image_bounds.json'',
               [(''min_lat'', Some 0), (''min_lon'', Some 0),
                (''max_lat'', Some 20), (''max_lon'', Some 0)])]"
    by (simp add: run_files(1) [OF example_grid_extremes] make_bounds_pair
        turning_transform_def fsub_def fadd_def lift2_def fl_zero fl_numeral)
  have others: "fst (turning_transform from_crs (Some 0) (Some 10)) = Some (- 10)"
    "fst (turning_transform from_crs (Some 10) (Some 0)) = Some 10"
    using fl_neg [of 10]
    by (simp_all add: turning_transform_def fsub_def lift2_def fl_numeral)
  show ?thesis
    using first rev rot others by (intro conjI)
qed

theorem bounds_are_images_of_diagonal_corners_witness:
  "example_samples \<noteq> [] \<and> double_samples example_samples
   \<and> monotone_on_box identity_transform 0 10 0 10
   \<and> fst (elevation_run identity_transform raising_griddata example_samples)
       = [(''image_bounds.json'', make_bounds (Some 0, Some 0) (Some 10, Some 10))]
   \<and> map_of (make_bounds (Some 0, Some 0) (Some 10, Some 10)) ''min_lat'' = Some (Some 0)
   \<and> map_of (make_bounds (Some 0, Some 0) (Some 10, Some 10)) ''max_lat'' = Some (Some 10)
   \<and> fle (Some 0) (Some 10)"
proof -
  have ne: "example_samples \<noteq> []" by (simp add: example_samples_def)
  have mono: "monotone_on_box identity_transform 0 10 0 10"
    by (simp add: monotone_on_box_def fle_def identity_transform_def)
  obtain a b c d lo hi where
    m: "np_amin (fst (sample_grid example_samples)) = Inr a"
       "np_amax (fst (sample_grid example_samples)) = Inr b"
       "np_amin (snd (sample_grid example_samples)) = Inr c"
       "np_amax (snd (sample_grid example_samples)) = Inr d"
    and lh: "lo = identity_transform from_crs a c" "hi = identity_transform from_crs b d"
    and f: "fst (elevation_run identity_transform raising_griddata example_samples)
              = [(''image_bounds.json'', make_bounds lo hi)]"
    and l: "map_of (make_bounds lo hi) ''min_lat'' = Some (snd lo)"
       "map_of (make_bounds lo hi) ''max_lat'' = Some (snd hi)"
    and ord: "\<forall>e_min e_max n_min n_max.
                example_samples \<noteq> [] \<and> double_samples example_samples
                \<and> a = Some e_min \<and> b = Some e_max \<and> c = Some n_min \<and> d = Some n_max
                \<and> monotone_on_box identity_transform e_min e_max n_min n_max
              \<longrightarrow> fle (snd lo) (snd hi) \<and> fle (fst lo) (fst hi)"
    using bounds_are_images_of_diagonal_corners [where transform = identity_transform
        and interpolate = raising_griddata and df = example_samples]
    by (elim exE conjE) (rule that; assumption)
  have v: "a = Some 0" "b = Some 10" "c = Some 0" "d = Some 10"
    using m by (simp_all add: example_grid_extremes)
  have p: "lo = (Some 0, Some 0)" "hi = (Some 10, Some 10)"
    unfolding lh v by (simp_all add: identity_transform_def)
  have "fle (Some 0) (Some 10)"
    using ord ne example_double mono by (simp add: v p)
  then show ?thesis
    using ne example_double mono f l unfolding p by simp
qed

text \<open>
  The shearing transformation is not monotone over the box of the example: from
  \<open>(0, 0)\<close> to \<open>(0, 10)\<close> the longitude falls from 0 to -5. The bounds it gives are in
  order all the same: latitudes 0 and 10, longitudes 0 and 5.
\<close>

theorem ordered_bounds_without_monotone_transform:
  "\<not> monotone_on_box shearing_transform 0 10 0 10
   \<and> np_amin (fst (sample_grid example_samples)) = Inr (Some 0)
   \<and> np_amax (fst (sample_grid example_samples)) = Inr (Some 10)
   \<and> np_amin (snd (sample_grid example_samples)) = Inr (Some 0)
   \<and> np_amax (snd (sample_grid example_samples)) = Inr (Some 10)
   \<and> fst (elevation_run shearing_transform raising_griddata example_samples)
       = [(''image_bounds.json'',
           [(''min_lat'', Some 0), (''min_lon'', Some 0),
            (''max_lat'', Some 10), (''max_lon'', Some 5)])]
   \<and> fst (nitrate_run shearing_transform raising_griddata example_samples)
       = [(''nitrate_bounds.json'',
           [(''min_lat'', Some 0), (''min_lon'', Some 0),
            (''max_lat'', Some 10), (''max_lon'', Some 5)])]
   \<and> fle (Some 0) (Some 10) \<and> fle (Some 0) (Some 5)"
proof -
  have "\<not> fle (fst (shearing_transform from_crs (Some 0) (Some 0)))
              (fst (shearing_transform from_crs (Some 0) (Some 10)))"
    using fl_neg [of 5]
    by (simp add: shearing_transform_def fsub_def fdiv_def lift2_def fl_zero fl_numeral fle_def)
  moreover have "(0::real) \<le> 0 \<and> (0::real) \<le> 0 \<and> (0::real) \<le> 10
                 \<and> (0::real) \<le> 0 \<and> (0::real) \<le> 10 \<and> (10::real) \<le> 10"
    by simp
  ultimately have a: "\<not> monotone_on_box shearing_transform 0 10 0 10"
    unfolding monotone_on_box_def by blast
  have b: "fst (elevation_run shearing_transform raising_griddata example_samples)
       = [(''image_bounds.json'',
           [(''min_lat'', Some 0), (''min_lon'', Some 0),
            (''max_lat'', Some 10), (''max_lon'', Some 5)])]"
    by (simp add: run_files(1) [OF example_grid_extremes] make_bounds_pair
        shearing_transform_def fsub_def fdiv_def lift2_def fl_zero fl_numeral)
  have c: "fst (nitrate_run shearing_transform raising_griddata example_samples)
       = [(''nitrate_bounds.json'',
           [(''min_lat'', Some 0), (''min_lon'', Some 0),
            (''max_lat'', Some 10), (''max_lon'', Some 5)])]"
    by (simp add: run_files(2) [OF example_grid_extremes] make_bounds_pair
        shearing_transform_def fsub_def fdiv_def lift2_def fl_zero fl_numeral)
  have d: "fle (Some 0) (Some 10)" "fle (Some 0) (Some 5)"
    by (simp_all add: fle_def)
  show ?thesis
    using a example_grid_extremes b c d by (intro conjI)
qed

section \<open>Properties of the gradient field\<close>


lemma elementwise_length:
  "length (elementwise f a b) = min (length a) (length b)"
  "i < length a \<Longrightarrow> i < length b \<Longrightarrow>
     length (elementwise f a b ! i) = min (length (a ! i)) (length (b ! i))"
  by (simp_all add: elementwise_def)



lemma ncols_rect:
  assumes "\<forall>row\<in>set z. length row = m" "z \<noteq> []"
  shows "ncols z = m"
  using assms by (cases z) (simp_all add: ncols_def)































section \<open>Properties of the filter\<close>






text \<open>With the label \<open>Name\<close> twice in the header the filter raises.\<close>

lemma toc1_filter_duplicate_name:
  assumes "1 < count_list (columns df) ''Name''"
  shows "toc1_filter pd df = Inl AttributeError"
proof -
  have "''Name'' \<in> set (columns df)"
  proof (rule ccontr)
    assume "''Name'' \<notin> set (columns df)"
    then have "count_list (columns df) ''Name'' = 0" by (simp add: count_list_0_iff)
    then show False using assms by simp
  qed
  then show ?thesis using assms by (simp add: toc1_filter_def)
qed



section \<open>Properties of the runs\<close>

lemma reproject_sample_grid_Inr:
  "\<exists>b. reproject_corners transform (fst (sample_grid df)) (snd (sample_grid df)) = Inr b"
proof -
  obtain a b c d where
    m: "np_amin (fst (sample_grid df)) = Inr a" "np_amax (fst (sample_grid df)) = Inr b"
       "np_amin (snd (sample_grid df)) = Inr c" "np_amax (snd (sample_grid df)) = Inr d"
    using sample_grid_extremes_exist [of df] by (elim exE conjE) (rule that; assumption)
  show ?thesis using reproject_corners_eq [OF m] by blast
qed

lemma elevation_run_outcome:
  "snd (elevation_run transform interpolate df) =
     (case interpolate (map easting df, map northing df) (map measurement df)
             (sample_grid df) ''cubic'' of
        Inl e \<Rightarrow> Inl (ScipyError e)
      | Inr gz \<Rightarrow> elevation_finish df (fst (sample_grid df)) (snd (sample_grid df)) gz)"
proof -
  obtain gx gy where g: "sample_grid df = (gx, gy)" by (cases "sample_grid df")
  obtain b where r: "reproject_corners transform gx gy = Inr b"
    using reproject_sample_grid_Inr [of transform df] by (auto simp: g)
  show ?thesis
    by (simp add: elevation_run_def g r Let_def split: sum.splits prod.splits)
qed

lemma nitrate_run_outcome:
  "snd (nitrate_run transform interpolate df) =
     (case interpolate (map easting df, map northing df) (map measurement df)
             (sample_grid df) ''cubic'' of
        Inl e \<Rightarrow> Inl (ScipyError e)
      | Inr gn \<Rightarrow> nitrate_finish (fst (sample_grid df)) (snd (sample_grid df)) gn)"
proof -
  obtain gx gy where g: "sample_grid df = (gx, gy)" by (cases "sample_grid df")
  obtain b where r: "reproject_corners transform gx gy = Inr b"
    using reproject_sample_grid_Inr [of transform df] by (auto simp: g)
  show ?thesis
    by (simp add: nitrate_run_def g r Let_def split: sum.splits prod.splits)
qed

lemma reduce_all_error: "reduce_all f a = Inl e \<Longrightarrow> e = ValueError"
  by (simp add: reduce_all_def split: list.splits)

lemma np_arange_error: "np_arange a b d = Inl e \<Longrightarrow> e = ValueError"
  by (simp add: np_arange_def split: option.splits if_splits)

lemma levels_error:
  "elevation_levels a b = Inl e \<Longrightarrow> e = ValueError"
  "nitrate_levels a b = Inl e \<Longrightarrow> e = ValueError"
  by (simp_all add: elevation_levels_def nitrate_levels_def level_range_def Let_def np_arange_error)

lemma contourf_levels_error: "contourf_levels ls = Inl e \<Longrightarrow> e = ValueError"
  by (simp add: contourf_levels_def split: if_splits)

lemma contourf_levels_Inr: "contourf_levels ls = Inr u \<Longrightarrow> 2 \<le> length ls \<and> sorted_wrt (<) ls"
  by (simp add: contourf_levels_def split: if_splits)

lemma flow_field_error: "flow_field z = Inl e \<Longrightarrow> e = ValueError"
  by (simp add: flow_field_def np_gradient_def Let_def split: if_splits)

lemma flow_field_Inr:
  assumes "2 \<le> length z" "2 \<le> ncols z"
  shows "\<exists>uv. flow_field z = Inr uv"
  using assms by (simp add: flow_field_def np_gradient_def Let_def)

lemma ncols_replicate: "0 < n \<Longrightarrow> ncols (replicate n row) = length row"
  by (cases n) (simp_all add: ncols_def)


lemma elevation_finish_error: "elevation_finish df gx gy gz = Inl e \<Longrightarrow> e = ValueError"
  by (auto simp: elevation_finish_def Let_def split: sum.splits prod.splits
      dest: flow_field_error levels_error contourf_levels_error)

lemma nitrate_finish_error: "nitrate_finish gx gy gn = Inl e \<Longrightarrow> e = ValueError"
  by (auto simp: nitrate_finish_def np_nanmin_def np_nanmax_def split: sum.splits
      dest: reduce_all_error levels_error contourf_levels_error)

lemma elevation_finish_plot:
  assumes "elevation_finish df gx gy gz = Inr plot"
  shows "grid_z plot = gz \<and> grid_x plot = gx \<and> grid_y plot = gy
         \<and> flow_field gz = Inr (flow_u plot, flow_v plot)
         \<and> elevation_levels (series_min (map measurement df)) (series_max (map measurement df))
             = Inr (contour_levels plot)
         \<and> 2 \<le> length (contour_levels plot) \<and> sorted_wrt (<) (contour_levels plot)"
  using assms
  by (auto simp: elevation_finish_def Let_def split: sum.splits prod.splits
      dest: contourf_levels_Inr)

lemma nitrate_finish_plot:
  assumes "nitrate_finish gx gy gn = Inr plot"
  shows "grid_nitrate plot = gn \<and> ngrid_x plot = gx \<and> ngrid_y plot = gy
         \<and> (\<exists>n_min n_max. np_nanmin gn = Inr n_min \<and> np_nanmax gn = Inr n_max
               \<and> nitrate_levels n_min n_max = Inr (nitrate_contour_levels plot))
         \<and> 2 \<le> length (nitrate_contour_levels plot)
         \<and> sorted_wrt (<) (nitrate_contour_levels plot)"
  using assms
  by (auto simp: nitrate_finish_def split: sum.splits dest: contourf_levels_Inr)

lemma fold_np_fmin_all_None: "\<forall>c\<in>set r. c = None \<Longrightarrow> fold np_fmin r None = None"
  by (simp add: fold_np_fmin_None)

lemma nitrate_finish_undefined:
  assumes ne: "concat gn \<noteq> []" and al: "\<forall>c\<in>set (concat gn). c = None"
  shows "nitrate_finish gx gy gn = Inl ValueError"
proof -
  obtain x r where xr: "concat gn = x # r" using ne by (cases "concat gn") auto
  then have x: "x = None" and r: "\<forall>c\<in>set r. c = None" using al by simp_all
  have lo: "np_nanmin gn = Inr None"
    using r by (simp add: np_nanmin_def reduce_all_def xr x fold_np_fmin_None)
  have hi: "np_nanmax gn = Inr None"
    using r by (simp add: np_nanmax_def reduce_all_def xr x fold_np_fmax_None)
  have "nitrate_levels None None = Inl ValueError"
    by (simp add: nitrate_levels_def level_range_def np_arange_def fsub_def fdiv_def fmul_def
        fadd_def np_floor_def np_ceil_def lift2_def Let_def)
  then show ?thesis by (simp add: nitrate_finish_def lo hi)
qed

lemma elevation_finish_Inr:
  assumes g: "2 \<le> length g" "2 \<le> ncols g"
    and ls: "elevation_levels (series_min (map measurement df)) (series_max (map measurement df))
               = Inr ls"
    and ok: "2 \<le> length ls" "sorted_wrt (<) ls"
  shows "\<exists>u v. elevation_finish df gx gy g
           = Inr \<lparr>grid_x = gx, grid_y = gy, grid_z = g, flow_u = u, flow_v = v,
                  contour_levels = ls\<rparr>"
proof -
  obtain uv where uv: "flow_field g = Inr uv"
    using flow_field_Inr [OF g] by blast
  have c: "contourf_levels ls = Inr ()"
    using ok by (simp add: contourf_levels_def)
  have "elevation_finish df gx gy g
           = Inr \<lparr>grid_x = gx, grid_y = gy, grid_z = g, flow_u = fst uv, flow_v = snd uv,
                  contour_levels = ls\<rparr>"
    by (simp add: elevation_finish_def uv ls c Let_def split: prod.splits)
  then show ?thesis by blast
qed

lemma elevation_finish_few_levels:
  assumes ls: "elevation_levels (series_min (map measurement df)) (series_max (map measurement df))
               = Inr ls"
    and few: "length ls < 2"
  shows "elevation_finish df gx gy g = Inl ValueError"
proof -
  have c: "contourf_levels ls = Inl ValueError"
    using few by (simp add: contourf_levels_def)
  show ?thesis
    by (auto simp: elevation_finish_def ls c Let_def split: sum.splits prod.splits
        dest: flow_field_error)
qed

text \<open>
  Claim C9, as the scripts have it. The interpolation stage has no check of the number or
  the position of the samples and never ends with \<open>InsufficientDataError\<close>: it passes
  the samples to the interpolator with the method \<open>cubic\<close>, whatever their number. When
  the interpolator raises, the run ends with the interpolator's error. When it returns a
  grid, the run goes on with that grid as it is: the elevation script, whose levels come
  from the samples, ends with a plot of the grid when the grid has at least two rows and
  columns and the levels are at least two and increasing, and with \<open>ValueError\<close> when
  the levels are fewer than two; the nitrate script, whose levels come from the grid,
  ends with \<open>ValueError\<close> on a grid without any value.
\<close>

theorem interpolation_has_no_sample_check:
  fixes transform :: pyproj and interpolate :: griddata and df :: "sample list"
  defines "result \<equiv> interpolate (map easting df, map northing df) (map measurement df)
                       (sample_grid df) ''cubic''"
  shows "snd (elevation_run transform interpolate df) \<noteq> Inl InsufficientDataError
       \<and> snd (nitrate_run transform interpolate df) \<noteq> Inl InsufficientDataError
       \<and> (\<forall>e. result = Inl e \<longrightarrow>
            snd (elevation_run transform interpolate df) = Inl (ScipyError e)
            \<and> snd (nitrate_run transform interpolate df) = Inl (ScipyError e))
       \<and> (\<forall>g. result = Inr g \<longrightarrow>
            snd (elevation_run transform interpolate df)
              = elevation_finish df (fst (sample_grid df)) (snd (sample_grid df)) g
            \<and> snd (nitrate_run transform interpolate df)
              = nitrate_finish (fst (sample_grid df)) (snd (sample_grid df)) g)
       \<and> (\<forall>gx gy g plot. elevation_finish df gx gy g = Inr plot \<longrightarrow> grid_z plot = g)
       \<and> (\<forall>gx gy g plot. nitrate_finish gx gy g = Inr plot \<longrightarrow> grid_nitrate plot = g)
       \<and> (\<forall>gx gy g ls.
            2 \<le> length g \<and> 2 \<le> ncols g
            \<and> elevation_levels (series_min (map measurement df)) (series_max (map measurement df))
                = Inr ls
            \<and> 2 \<le> length ls \<and> sorted_wrt (<) ls
            \<longrightarrow> (\<exists>u v. elevation_finish df gx gy g
                    = Inr \<lparr>grid_x = gx, grid_y = gy, grid_z = g, flow_u = u, flow_v = v,
                           contour_levels = ls\<rparr>))
       \<and> (\<forall>gx gy g ls.
            elevation_levels (series_min (map measurement df)) (series_max (map measurement df))
                = Inr ls
            \<and> length ls < 2
            \<longrightarrow> elevation_finish df gx gy g = Inl ValueError)
       \<and> (\<forall>gx gy g. concat g \<noteq> [] \<and> (\<forall>c\<in>set (concat g). c = None)
            \<longrightarrow> nitrate_finish gx gy g = Inl ValueError)"
proof -
  have a: "snd (elevation_run transform interpolate df) \<noteq> Inl InsufficientDataError"
  proof
    assume "snd (elevation_run transform interpolate df) = Inl InsufficientDataError"
    then show False
      unfolding elevation_run_outcome
      by (auto split: sum.splits dest: elevation_finish_error)
  qed
  have b: "snd (nitrate_run transform interpolate df) \<noteq> Inl InsufficientDataError"
  proof
    assume "snd (nitrate_run transform interpolate df) = Inl InsufficientDataError"
    then show False
      unfolding nitrate_run_outcome
      by (auto split: sum.splits dest: nitrate_finish_error)
  qed
  have c: "\<forall>e. result = Inl e \<longrightarrow>
            snd (elevation_run transform interpolate df) = Inl (ScipyError e)
            \<and> snd (nitrate_run transform interpolate df) = Inl (ScipyError e)"
    unfolding elevation_run_outcome nitrate_run_outcome result_def by simp
  have d: "\<forall>g. result = Inr g \<longrightarrow>
            snd (elevation_run transform interpolate df)
              = elevation_finish df (fst (sample_grid df)) (snd (sample_grid df)) g
            \<and> snd (nitrate_run transform interpolate df)
              = nitrate_finish (fst (sample_grid df)) (snd (sample_grid df)) g"
    unfolding elevation_run_outcome nitrate_run_outcome result_def by simp
  have e: "\<forall>gx gy g plot. elevation_finish df gx gy g = Inr plot \<longrightarrow> grid_z plot = g"
    using elevation_finish_plot by blast
  have f: "\<forall>gx gy g plot. nitrate_finish gx gy g = Inr plot \<longrightarrow> grid_nitrate plot = g"
    using nitrate_finish_plot by blast
  have g: "\<forall>gx gy g ls.
            2 \<le> length g \<and> 2 \<le> ncols g
            \<and> elevation_levels (series_min (map measurement df)) (series_max (map measurement df))
                = Inr ls
            \<and> 2 \<le> length ls \<and> sorted_wrt (<) ls
            \<longrightarrow> (\<exists>u v. elevation_finish df gx gy g
                    = Inr \<lparr>grid_x = gx, grid_y = gy, grid_z = g, flow_u = u, flow_v = v,
                           contour_levels = ls\<rparr>)"
    using elevation_finish_Inr by blast
  have h: "\<forall>gx gy g ls.
            elevation_levels (series_min (map measurement df)) (series_max (map measurement df))
                = Inr ls
            \<and> length ls < 2
            \<longrightarrow> elevation_finish df gx gy g = Inl ValueError"
    using elevation_finish_few_levels by blast
  have i: "\<forall>gx gy g. concat g \<noteq> [] \<and> (\<forall>c\<in>set (concat g). c = None)
            \<longrightarrow> nitrate_finish gx gy g = Inl ValueError"
    using nitrate_finish_undefined by blast
  show ?thesis by (intro conjI a b c d e f g h i)
qed

lemma two_series:
  "series_min (map measurement two_samples) = Some 10"
  "series_max (map measurement two_samples) = Some 30"
  by (simp_all add: two_samples_def series_min_def series_max_def)

theorem interpolation_has_no_sample_check_witness:
  "snd (elevation_run identity_transform raising_griddata two_samples) = Inl (ScipyError QhullError)
   \<and> snd (nitrate_run identity_transform raising_griddata two_samples) = Inl (ScipyError QhullError)
   \<and> snd (elevation_run identity_transform raising_griddata two_samples) \<noteq> Inl InsufficientDataError
   \<and> snd (elevation_run identity_transform overshooting_griddata example_samples)
       = elevation_finish example_samples (fst (sample_grid example_samples))
           (snd (sample_grid example_samples)) overshooting_grid
   \<and> snd (nitrate_run identity_transform overshooting_griddata example_samples)
       = nitrate_finish (fst (sample_grid example_samples))
           (snd (sample_grid example_samples)) overshooting_grid
   \<and> nitrate_finish [] [] [[None, None], [None, None]] = Inl ValueError"
proof -
  note t = interpolation_has_no_sample_check [where transform = identity_transform
      and interpolate = raising_griddata and df = two_samples]
  note o = interpolation_has_no_sample_check [where transform = identity_transform
      and interpolate = overshooting_griddata and df = example_samples]
  have r: "raising_griddata (map easting two_samples, map northing two_samples)
             (map measurement two_samples) (sample_grid two_samples) ''cubic'' = Inl QhullError"
    by (simp add: raising_griddata_def)
  have s: "overshooting_griddata (map easting example_samples, map northing example_samples)
             (map measurement example_samples) (sample_grid example_samples) ''cubic''
           = Inr overshooting_grid"
    by (simp add: overshooting_griddata_def)
  have n: "concat [[None, None], [None, None]] \<noteq> ([] :: float list)
           \<and> (\<forall>c\<in>set (concat [[None, None], [None :: float, None]]). c = None)"
    by simp
  have 1: "snd (elevation_run identity_transform raising_griddata two_samples) = Inl (ScipyError QhullError)
     \<and> snd (nitrate_run identity_transform raising_griddata two_samples) = Inl (ScipyError QhullError)"
    using t [THEN conjunct2, THEN conjunct2, THEN conjunct1, THEN spec, THEN mp, OF r] .
  have 2: "snd (elevation_run identity_transform raising_griddata two_samples) \<noteq> Inl InsufficientDataError"
    using t [THEN conjunct1] .
  have 3: "snd (elevation_run identity_transform overshooting_griddata example_samples)
       = elevation_finish example_samples (fst (sample_grid example_samples))
           (snd (sample_grid example_samples)) overshooting_grid
   \<and> snd (nitrate_run identity_transform overshooting_griddata example_samples)
       = nitrate_finish (fst (sample_grid example_samples))
           (snd (sample_grid example_samples)) overshooting_grid"
    using o [THEN conjunct2, THEN conjunct2, THEN conjunct2, THEN conjunct1, THEN spec, THEN mp, OF s] .
  have 4: "nitrate_finish [] [] [[None, None], [None, None]] = Inl ValueError"
    using t [THEN conjunct2, THEN conjunct2, THEN conjunct2, THEN conjunct2, THEN conjunct2,
        THEN conjunct2, THEN conjunct2, THEN conjunct2, THEN spec, THEN spec, THEN spec,
        THEN mp, OF n] .
  show ?thesis using 1 2 3 4 by (intro conjI) simp_all
qed

lemma three_series:
  "series_min (map measurement three_samples) = Some 10"
  "series_max (map measurement three_samples) = Some 30"
  by (simp_all add: three_samples_def series_min_def series_max_def)

lemma levels_10_30:
  "elevation_levels (Some 10) (Some 30)
     = Inr [10, 11, 12, 13, 14, 15, 16, 17, 18, 19, 20, 21, 22, 23, 24, 25, 26, 27, 28, 29, 30]"
proof -
  have "level_range (Some 10) (Some 30) (literal 1)
     = Inr [10, 11, 12, 13, 14, 15, 16, 17, 18, 19, 20, 21, 22, 23, 24, 25, 26, 27, 28, 29, 30]"
    by (simp add: wide_levels_eq is_double_numeral upt_rec)
  then show ?thesis
    by (simp add: elevation_levels_def elevation_interval_def fsub_def lift2_def fgt_def
        fl_numeral)
qed

lemma elementwise_grid_shape:
  assumes "length a = 100" "length b = 100"
    and "list_all (\<lambda>row. length row = 100) a" "list_all (\<lambda>row. length row = 100) b"
  shows "2 \<le> length (elementwise f a b)" "2 \<le> ncols (elementwise f a b)"
proof -
  have l: "length (elementwise f a b) = 100"
    using assms(1,2) by (simp add: elementwise_length)
  have "\<forall>row\<in>set (elementwise f a b). length row = 100"
  proof
    fix row assume "row \<in> set (elementwise f a b)"
    then obtain i where i: "i < 100" "row = elementwise f a b ! i"
      using l by (auto simp: in_set_conv_nth)
    have "length (a ! i) = 100" "length (b ! i) = 100"
      using assms i(1) by (simp_all add: list_all_length)
    then show "length row = 100"
      using i assms(1,2) by (simp add: elementwise_length)
  qed
  moreover have "elementwise f a b \<noteq> []" using l by auto
  ultimately have "ncols (elementwise f a b) = 100" by (intro ncols_rect)
  then show "2 \<le> length (elementwise f a b)" "2 \<le> ncols (elementwise f a b)"
    using l by simp_all
qed

text \<open>
  With three samples that are not colinear and an interpolator that returns the plane
  through them inside their triangle, the elevation run writes its bounds file and ends
  with the plot of that grid and the 21 levels from 10 to 30: no error is raised and no
  other scheme is chosen. With two samples, on which the triangulation raises, the run
  ends with the error of the interpolator, after the bounds file was written.
\<close>

theorem three_samples_are_interpolated:
  "map_sum id contour_levels (snd (elevation_run identity_transform plane_griddata three_samples))
     = Inr [10, 11, 12, 13, 14, 15, 16, 17, 18, 19, 20, 21, 22, 23, 24, 25, 26, 27, 28, 29, 30]
   \<and> map_sum id (\<lambda>plot. Inr (grid_z plot)) (snd (elevation_run identity_transform plane_griddata three_samples))
     = Inr (plane_griddata (map easting three_samples, map northing three_samples)
              (map measurement three_samples) (sample_grid three_samples) ''cubic'')
   \<and> snd (elevation_run identity_transform raising_griddata two_samples)
     = Inl (ScipyError QhullError)
   \<and> snd (nitrate_run identity_transform raising_griddata two_samples)
     = Inl (ScipyError QhullError)
   \<and> length (fst (elevation_run identity_transform raising_griddata two_samples)) = 1"
proof -
  define g where "g = elementwise
            (\<lambda>x y. if fle (fadd x y) (Some 10)
                    then fadd (Some 10) (fadd x (fmul (Some 2) y)) else None)
            (fst (sample_grid three_samples)) (snd (sample_grid three_samples))"
  have p: "plane_griddata (map easting three_samples, map northing three_samples)
              (map measurement three_samples) (sample_grid three_samples) ''cubic'' = Inr g"
    by (simp add: plane_griddata_def g_def)
  have shape: "2 \<le> length g" "2 \<le> ncols g"
    unfolding g_def by (rule elementwise_grid_shape; rule sample_grid_shape)+
  have ls: "elevation_levels (series_min (map measurement three_samples))
               (series_max (map measurement three_samples))
     = Inr [10, 11, 12, 13, 14, 15, 16, 17, 18, 19, 20, 21, 22, 23, 24, 25, 26, 27, 28, 29, 30]"
    by (simp only: three_series levels_10_30)
  obtain u v where f: "elevation_finish three_samples (fst (sample_grid three_samples))
        (snd (sample_grid three_samples)) g
      = Inr \<lparr>grid_x = fst (sample_grid three_samples), grid_y = snd (sample_grid three_samples),
             grid_z = g, flow_u = u, flow_v = v,
             contour_levels = [10, 11, 12, 13, 14, 15, 16, 17, 18, 19, 20, 21, 22, 23, 24, 25,
                               26, 27, 28, 29, 30]\<rparr>"
    using elevation_finish_Inr [OF shape ls, simplified, of "fst (sample_grid three_samples)"
        "snd (sample_grid three_samples)"]
    by (elim exE) (rule that)
  have run: "snd (elevation_run identity_transform plane_griddata three_samples)
      = Inr \<lparr>grid_x = fst (sample_grid three_samples), grid_y = snd (sample_grid three_samples),
             grid_z = g, flow_u = u, flow_v = v,
             contour_levels = [10, 11, 12, 13, 14, 15, 16, 17, 18, 19, 20, 21, 22, 23, 24, 25,
                               26, 27, 28, 29, 30]\<rparr>"
    unfolding elevation_run_outcome p using f by simp
  have r: "raising_griddata (map easting two_samples, map northing two_samples)
             (map measurement two_samples) (sample_grid two_samples) ''cubic'' = Inl QhullError"
    by (simp add: raising_griddata_def)
  have e2: "snd (elevation_run identity_transform raising_griddata two_samples)
     = Inl (ScipyError QhullError)"
    unfolding elevation_run_outcome r by simp
  have n2: "snd (nitrate_run identity_transform raising_griddata two_samples)
     = Inl (ScipyError QhullError)"
    unfolding nitrate_run_outcome r by simp
  obtain a b c d where
    m: "np_amin (fst (sample_grid two_samples)) = Inr a" "np_amax (fst (sample_grid two_samples)) = Inr b"
       "np_amin (snd (sample_grid two_samples)) = Inr c" "np_amax (snd (sample_grid two_samples)) = Inr d"
    using sample_grid_extremes_exist [of two_samples] by (elim exE conjE) (rule that; assumption)
  have files: "length (fst (elevation_run identity_transform raising_griddata two_samples)) = 1"
    by (simp add: run_files(1) [OF m])
  show ?thesis
    using files by (simp add: run p e2 n2)
qed

text \<open>
  Claim C4. The two scripts take the range of the contour levels from different data.
  The elevation script computes the levels from the minimum and the maximum of the
  measurements of the validated samples, whatever the interpolated grid is. The nitrate
  script computes them from \<open>np.nanmin\<close> and \<open>np.nanmax\<close> of the interpolated grid,
  which are the least and the greatest of its cells that are not NaN.
\<close>

theorem range_sources_differ:
  fixes transform :: pyproj and interpolate :: griddata and df :: "sample list"
  defines "result \<equiv> interpolate (map easting df, map northing df) (map measurement df)
                       (sample_grid df) ''cubic''"
  shows "(\<forall>plot. snd (elevation_run transform interpolate df) = Inr plot \<longrightarrow>
            elevation_levels (series_min (map measurement df)) (series_max (map measurement df))
              = Inr (contour_levels plot))
       \<and> (df \<noteq> [] \<longrightarrow>
            series_min (map measurement df) = Some (Min (measurement ` set df))
            \<and> series_max (map measurement df) = Some (Max (measurement ` set df)))
       \<and> (\<forall>plot. snd (nitrate_run transform interpolate df) = Inr plot \<longrightarrow>
            result = Inr (grid_nitrate plot)
            \<and> (\<exists>n_min n_max. np_nanmin (grid_nitrate plot) = Inr n_min
                  \<and> np_nanmax (grid_nitrate plot) = Inr n_max
                  \<and> nitrate_levels n_min n_max = Inr (nitrate_contour_levels plot)))
       \<and> (\<forall>gn w. Some w \<in> set (concat gn) \<longrightarrow>
            (\<exists>lo hi. np_nanmin gn = Inr (Some lo) \<and> np_nanmax gn = Inr (Some hi)
                \<and> Some lo \<in> set (concat gn) \<and> Some hi \<in> set (concat gn)
                \<and> (\<forall>y. Some y \<in> set (concat gn) \<longrightarrow> lo \<le> y \<and> y \<le> hi)))"
proof -
  have e: "\<forall>plot. snd (elevation_run transform interpolate df) = Inr plot \<longrightarrow>
            elevation_levels (series_min (map measurement df)) (series_max (map measurement df))
              = Inr (contour_levels plot)"
    unfolding elevation_run_outcome
    by (auto split: sum.splits dest: elevation_finish_plot)
  have s: "df \<noteq> [] \<longrightarrow>
            series_min (map measurement df) = Some (Min (measurement ` set df))
            \<and> series_max (map measurement df) = Some (Max (measurement ` set df))"
    by (simp add: series_min_Min series_max_Max)
  have n: "\<forall>plot. snd (nitrate_run transform interpolate df) = Inr plot \<longrightarrow>
            result = Inr (grid_nitrate plot)
            \<and> (\<exists>n_min n_max. np_nanmin (grid_nitrate plot) = Inr n_min
                  \<and> np_nanmax (grid_nitrate plot) = Inr n_max
                  \<and> nitrate_levels n_min n_max = Inr (nitrate_contour_levels plot))"
    unfolding nitrate_run_outcome result_def
    by (auto split: sum.splits dest: nitrate_finish_plot)
  have m: "\<forall>gn w. Some w \<in> set (concat gn) \<longrightarrow>
            (\<exists>lo hi. np_nanmin gn = Inr (Some lo) \<and> np_nanmax gn = Inr (Some hi)
                \<and> Some lo \<in> set (concat gn) \<and> Some hi \<in> set (concat gn)
                \<and> (\<forall>y. Some y \<in> set (concat gn) \<longrightarrow> lo \<le> y \<and> y \<le> hi))"
  proof (intro allI impI)
    fix gn :: array2 and w
    assume w: "Some w \<in> set (concat gn)"
    obtain lo where lo: "np_nanmin gn = Inr (Some lo)" "Some lo \<in> set (concat gn)"
      "\<forall>y. Some y \<in> set (concat gn) \<longrightarrow> lo \<le> y"
      using np_nanmin_finite [OF w] by blast
    obtain hi where hi: "np_nanmax gn = Inr (Some hi)" "Some hi \<in> set (concat gn)"
      "\<forall>y. Some y \<in> set (concat gn) \<longrightarrow> y \<le> hi"
      using np_nanmax_finite [OF w] by blast
    show "\<exists>lo hi. np_nanmin gn = Inr (Some lo) \<and> np_nanmax gn = Inr (Some hi)
                \<and> Some lo \<in> set (concat gn) \<and> Some hi \<in> set (concat gn)
                \<and> (\<forall>y. Some y \<in> set (concat gn) \<longrightarrow> lo \<le> y \<and> y \<le> hi)"
      using lo hi by blast
  qed
  show ?thesis by (intro conjI e s n m)
qed

lemma np_nanmin_eqI:
  assumes "Some m \<in> set (concat g)" "\<forall>y. Some y \<in> set (concat g) \<longrightarrow> m \<le> y"
  shows "np_nanmin g = Inr (Some m)"
proof -
  obtain k where k: "np_nanmin g = Inr (Some k)" "Some k \<in> set (concat g)"
    "\<forall>y. Some y \<in> set (concat g) \<longrightarrow> k \<le> y"
    using np_nanmin_finite [OF assms(1)] by blast
  have "k \<le> m" "m \<le> k" using k assms by blast+
  then show ?thesis using k(1) by simp
qed

lemma np_nanmax_eqI:
  assumes "Some m \<in> set (concat g)" "\<forall>y. Some y \<in> set (concat g) \<longrightarrow> y \<le> m"
  shows "np_nanmax g = Inr (Some m)"
proof -
  obtain k where k: "np_nanmax g = Inr (Some k)" "Some k \<in> set (concat g)"
    "\<forall>y. Some y \<in> set (concat g) \<longrightarrow> y \<le> k"
    using np_nanmax_finite [OF assms(1)] by blast
  have "k \<le> m" "m \<le> k" using k assms by blast+
  then show ?thesis using k(1) by simp
qed

lemma in_concat_iff:
  "x \<in> set (concat g) \<longleftrightarrow> (\<exists>i j. i < length g \<and> j < length (g ! i) \<and> x = g ! i ! j)"
proof
  assume "x \<in> set (concat g)"
  then obtain row where row: "row \<in> set g" "x \<in> set row" by auto
  then obtain i where i: "i < length g" "g ! i = row" by (auto simp: in_set_conv_nth)
  obtain j where j: "j < length row" "row ! j = x" using row(2) by (auto simp: in_set_conv_nth)
  show "\<exists>i j. i < length g \<and> j < length (g ! i) \<and> x = g ! i ! j"
    using i j by auto
next
  assume "\<exists>i j. i < length g \<and> j < length (g ! i) \<and> x = g ! i ! j"
  then obtain i j where ij: "i < length g" "j < length (g ! i)" "x = g ! i ! j" by blast
  then have "g ! i \<in> set g" "x \<in> set (g ! i)" by simp_all
  then show "x \<in> set (concat g)" by auto
qed

lemma overshooting_grid_cell:
  assumes "i < 100" "j < 100"
  shows "overshooting_grid ! i ! j = (if i + j < 50 then None else Some (real (i + j) / 8))"
    and "length (overshooting_grid ! i) = 100"
  using assms by (simp_all add: overshooting_grid_def)

lemma overshooting_grid_length: "length overshooting_grid = 100"
  by (simp add: overshooting_grid_def)

lemma overshooting_grid_cells:
  "Some y \<in> set (concat overshooting_grid)
     \<longleftrightarrow> (\<exists>i j. i < 100 \<and> j < 100 \<and> 50 \<le> i + j \<and> y = real (i + j) / 8)"
proof
  assume "Some y \<in> set (concat overshooting_grid)"
  then obtain i j where ij: "i < 100" "j < length (overshooting_grid ! i)"
    "Some y = overshooting_grid ! i ! j"
    unfolding in_concat_iff overshooting_grid_length by blast
  then have j: "j < 100" by (simp add: overshooting_grid_cell(2))
  have "Some y = (if i + j < 50 then None else Some (real (i + j) / 8))"
    using ij(3) by (simp only: overshooting_grid_cell(1) [OF ij(1) j])
  then have "50 \<le> i + j \<and> y = real (i + j) / 8" by (simp split: if_splits)
  then show "\<exists>i j. i < 100 \<and> j < 100 \<and> 50 \<le> i + j \<and> y = real (i + j) / 8"
    using ij(1) j by blast
next
  assume "\<exists>i j. i < 100 \<and> j < 100 \<and> 50 \<le> i + j \<and> y = real (i + j) / 8"
  then obtain i j where ij: "i < 100" "j < 100" "50 \<le> i + j" "y = real (i + j) / 8"
    by blast
  have "Some y = overshooting_grid ! i ! j"
    using ij(3,4) by (simp add: overshooting_grid_cell(1) [OF ij(1,2)])
  moreover have "i < length overshooting_grid" "j < length (overshooting_grid ! i)"
    using ij(1,2) by (simp_all add: overshooting_grid_length overshooting_grid_cell(2))
  ultimately show "Some y \<in> set (concat overshooting_grid)"
    unfolding in_concat_iff by blast
qed

lemma overshooting_grid_range:
  "np_nanmin overshooting_grid = Inr (Some (25 / 4))"
  "np_nanmax overshooting_grid = Inr (Some (99 / 4))"
proof -
  have lo: "Some (25 / 4) \<in> set (concat overshooting_grid)"
    unfolding overshooting_grid_cells
    by (rule exI [of _ 0], rule exI [of _ 50]) simp
  have hi: "Some (99 / 4) \<in> set (concat overshooting_grid)"
    unfolding overshooting_grid_cells
    by (rule exI [of _ 99], rule exI [of _ 99]) simp
  have b: "\<forall>y. Some y \<in> set (concat overshooting_grid) \<longrightarrow> 25 / 4 \<le> y \<and> y \<le> 99 / 4"
  proof (intro allI impI)
    fix y
    assume "Some y \<in> set (concat overshooting_grid)"
    then obtain i j where ij: "i < 100" "j < 100" "50 \<le> i + j" "y = real (i + j) / 8"
      unfolding overshooting_grid_cells by blast
    have "real (i + j) \<le> 198" "50 \<le> real (i + j)" using ij(1,2,3) by linarith+
    then show "25 / 4 \<le> y \<and> y \<le> 99 / 4" by (simp add: ij(4))
  qed
  show "np_nanmin overshooting_grid = Inr (Some (25 / 4))"
    using lo b by (intro np_nanmin_eqI) blast+
  show "np_nanmax overshooting_grid = Inr (Some (99 / 4))"
    using hi b by (intro np_nanmax_eqI) blast+
qed

lemma overshooting_grid_shape:
  "2 \<le> length overshooting_grid" "2 \<le> ncols overshooting_grid"
proof -
  have r: "\<forall>row\<in>set overshooting_grid. length row = 100"
    by (auto simp: overshooting_grid_def)
  have l: "length overshooting_grid = 100" by (simp add: overshooting_grid_def)
  then have "overshooting_grid \<noteq> []" by auto
  with r have "ncols overshooting_grid = 100" by (intro ncols_rect)
  then show "2 \<le> length overshooting_grid" "2 \<le> ncols overshooting_grid"
    using l by simp_all
qed


lemma levels_8_14_elevation:
  "elevation_levels (Some 8) (Some 14)
     = Inr [8, 17 / 2, 9, 19 / 2, 10, 21 / 2, 11, 23 / 2, 12, 25 / 2, 13, 27 / 2, 14]"
  by (simp add: elevation_levels_def elevation_interval_def fsub_def lift2_def fgt_def
      fl_numeral levels_8_14)

lemma levels_overshooting:
  "nitrate_levels (Some (25 / 4)) (Some (99 / 4))
     = Inr [6, 7, 8, 9, 10, 11, 12, 13, 14, 15, 16, 17, 18, 19, 20, 21, 22, 23, 24, 25]"
proof -
  have d: "is_double (25 / 4)" "is_double (99 / 4)"
    using is_double_div_pow2 [of 25 2] is_double_div_pow2 [of 99 2] by simp_all
  have r: "fl (37 / 2) = 37 / 2"
    using fl_div_pow2 [of 37 1] by simp
  have "level_range (Some (25 / 4)) (Some (99 / 4)) (literal 1)
     = Inr [6, 7, 8, 9, 10, 11, 12, 13, 14, 15, 16, 17, 18, 19, 20, 21, 22, 23, 24, 25]"
    by (simp add: wide_levels_eq(2) [OF d] upt_rec)
  then show ?thesis
    by (simp add: nitrate_levels_def nitrate_interval_def fsub_def lift2_def fgt_def r)
qed

theorem range_sources_differ_witness:
  "map_sum id contour_levels
       (snd (elevation_run identity_transform overshooting_griddata example_samples))
     = elevation_levels (Some 8) (Some 14)
   \<and> map_sum id nitrate_contour_levels
       (snd (nitrate_run identity_transform overshooting_griddata example_samples))
     = nitrate_levels (Some (25 / 4)) (Some (99 / 4))
   \<and> map_sum id grid_z
       (snd (elevation_run identity_transform overshooting_griddata example_samples))
     = Inr overshooting_grid
   \<and> map_sum id grid_nitrate
       (snd (nitrate_run identity_transform overshooting_griddata example_samples))
     = Inr overshooting_grid
   \<and> elevation_levels (Some 8) (Some 14)
     = Inr [8, 17 / 2, 9, 19 / 2, 10, 21 / 2, 11, 23 / 2, 12, 25 / 2, 13, 27 / 2, 14]
   \<and> nitrate_levels (Some (25 / 4)) (Some (99 / 4))
     = Inr [6, 7, 8, 9, 10, 11, 12, 13, 14, 15, 16, 17, 18, 19, 20, 21, 22, 23, 24, 25]"
proof -
  let ?g = overshooting_grid
  note t = range_sources_differ [where transform = identity_transform
      and interpolate = overshooting_griddata and df = example_samples]
  obtain uv where uv: "flow_field ?g = Inr uv"
    using flow_field_Inr [OF overshooting_grid_shape] by blast
  have mm: "np_nanmin ?g = Inr (Some (25 / 4))" "np_nanmax ?g = Inr (Some (99 / 4))"
    by (rule overshooting_grid_range)+
  note nl = levels_overshooting
  note el = levels_8_14_elevation
  have els: "elevation_levels (series_min (map measurement example_samples))
               (series_max (map measurement example_samples))
     = Inr [8, 17 / 2, 9, 19 / 2, 10, 21 / 2, 11, 23 / 2, 12, 25 / 2, 13, 27 / 2, 14]"
    by (simp only: example_series el)
  obtain u v where f: "elevation_finish example_samples (fst (sample_grid example_samples))
        (snd (sample_grid example_samples)) ?g
      = Inr \<lparr>grid_x = fst (sample_grid example_samples), grid_y = snd (sample_grid example_samples),
             grid_z = ?g, flow_u = u, flow_v = v,
             contour_levels = [8, 17 / 2, 9, 19 / 2, 10, 21 / 2, 11, 23 / 2, 12, 25 / 2, 13,
                               27 / 2, 14]\<rparr>"
    using elevation_finish_Inr [OF overshooting_grid_shape els, simplified,
        of "fst (sample_grid example_samples)" "snd (sample_grid example_samples)"]
    by (elim exE) (rule that)
  obtain ep where ep: "snd (elevation_run identity_transform overshooting_griddata example_samples)
      = Inr ep" "grid_z ep = ?g"
    unfolding elevation_run_outcome
    by (simp add: overshooting_griddata_def f)
  obtain np where np: "snd (nitrate_run identity_transform overshooting_griddata example_samples)
      = Inr np" "grid_nitrate np = ?g"
    unfolding nitrate_run_outcome
    by (simp add: overshooting_griddata_def nitrate_finish_def mm nl contourf_levels_def)
  from t ep(1) have 1: "elevation_levels (series_min (map measurement example_samples))
      (series_max (map measurement example_samples)) = Inr (contour_levels ep)"
    by blast
  from t np(1) obtain n_min n_max where 2: "np_nanmin (grid_nitrate np) = Inr n_min"
    "np_nanmax (grid_nitrate np) = Inr n_max"
    "nitrate_levels n_min n_max = Inr (nitrate_contour_levels np)"
    by blast
  have 3: "n_min = Some (25 / 4)" "n_max = Some (99 / 4)"
  proof -
    have "Inr n_min = (Inr (Some (25 / 4)) :: error + float)"
      using 2(1) unfolding np(2) mm by (rule sym)
    then show "n_min = Some (25 / 4)" by simp
    have "Inr n_max = (Inr (Some (99 / 4)) :: error + float)"
      using 2(2) unfolding np(2) mm by (rule sym)
    then show "n_max = Some (99 / 4)" by simp
  qed
  have a: "map_sum id contour_levels
       (snd (elevation_run identity_transform overshooting_griddata example_samples))
     = elevation_levels (Some 8) (Some 14)"
    using 1 by (simp add: ep(1) example_series)
  have b: "map_sum id nitrate_contour_levels
       (snd (nitrate_run identity_transform overshooting_griddata example_samples))
     = nitrate_levels (Some (25 / 4)) (Some (99 / 4))"
    using 2(3) by (simp add: np(1) 3)
  have c: "map_sum id grid_z
       (snd (elevation_run identity_transform overshooting_griddata example_samples)) = Inr ?g"
    by (simp add: ep)
  have d: "map_sum id grid_nitrate
       (snd (nitrate_run identity_transform overshooting_griddata example_samples)) = Inr ?g"
    by (simp add: np)
  show ?thesis by (intro conjI a b c d el nl)
qed

end
